theory Spec2Isabelle
  imports Main
begin

section \<open>Strings\<close>

text \<open>
  A JavaScript string is a sequence of UTF-16 code units; a code unit is modelled as a
  natural number.  \<open>js\<close> embeds an ASCII literal.  The letters of the Finnish alphabet
  outside ASCII are written by their code units: 228 (a with diaeresis), 246 (o with
  diaeresis), 229 (a with ring), and 196, 214, 197 for the capitals.
\<close>

type_synonym jsstring = "nat list"

definition js :: "string \<Rightarrow> jsstring" where
  "js s = map of_char s"

text \<open>The class \<open>\s\<close> of a regular expression, which is also what \<open>trim\<close> strips:
  the white space and line terminator code points of ECMAScript.\<close>

definition is_space :: "nat \<Rightarrow> bool" where
  "is_space c \<longleftrightarrow>
     (9 \<le> c \<and> c \<le> 13) \<or> c = 32 \<or> c = 160 \<or> c = 5760 \<or>
     (8192 \<le> c \<and> c \<le> 8202) \<or> c = 8232 \<or> c = 8233 \<or> c = 8239 \<or>
     c = 8287 \<or> c = 12288 \<or> c = 65279"

text \<open>The class \<open>[a-zA-Z]\<close>.\<close>

definition is_ascii_letter :: "nat \<Rightarrow> bool" where
  "is_ascii_letter c \<longleftrightarrow> (65 \<le> c \<and> c \<le> 90) \<or> (97 \<le> c \<and> c \<le> 122)"

text \<open>\<open>String.prototype.trim\<close>.\<close>

definition trim :: "jsstring \<Rightarrow> jsstring" where
  "trim s = rev (dropWhile is_space (rev (dropWhile is_space s)))"

text \<open>\<open>xs[i]\<close>: \<open>undefined\<close> out of range.\<close>

definition at_index :: "'a list \<Rightarrow> nat \<Rightarrow> 'a option" where
  "at_index xs i = (if i < length xs then Some (xs ! i) else None)"

section \<open>Objects used as dictionaries\<close>

text \<open>
  The source uses plain objects as dictionaries and reads them with \<open>object[key]\<close>.  Such
  a read finds the own property of that name and, when there is none, the member of that
  name that every plain object inherits from \<open>Object.prototype\<close>: one of eleven
  functions, or the accessor \<open>__proto__\<close>, which gives the prototype object.  All of them
  are truthy and none of them is a string.
\<close>

definition prototype_functions :: "jsstring list" where
  "prototype_functions =
     [js ''constructor'', js ''__defineGetter__'', js ''__defineSetter__'',
      js ''hasOwnProperty'', js ''__lookupGetter__'', js ''__lookupSetter__'',
      js ''isPrototypeOf'', js ''propertyIsEnumerable'', js ''toString'', js ''valueOf'',
      js ''toLocaleString'']"

definition inherited_names :: "jsstring list" where
  "inherited_names = js ''__proto__'' # prototype_functions"

text \<open>What a read gives: \<open>undefined\<close>, a value that the source stored, or the member of
  \<open>Object.prototype\<close> of the given name.\<close>

datatype 'a jsvalue = Undefined | Val 'a | Member jsstring

text \<open>\<open>object[key]\<close> for an object with the given own properties whose prototype is
  \<open>Object.prototype\<close>.\<close>

definition js_get :: "(jsstring \<rightharpoonup> 'a) \<Rightarrow> jsstring \<Rightarrow> 'a jsvalue" where
  "js_get own key =
     (case own key of
        Some v \<Rightarrow> Val v
      | None \<Rightarrow> if key \<in> set inherited_names then Member key else Undefined)"

text \<open>The \<open>name\<close> of a function of \<open>Object.prototype\<close>: \<open>constructor\<close> is the function
  \<open>Object\<close>, every other one is named as its key.\<close>

definition function_name :: "jsstring \<Rightarrow> jsstring" where
  "function_name key = (if key = js ''constructor'' then js ''Object'' else key)"

section \<open>Data\<close>

text \<open>A value thrown: a failed HTTP request, a \<open>TypeError\<close> on a malformed payload,
  the missing environment variables of \<open>main\<close>, an error object of the store.\<close>

datatype error = HttpError string | TypeError string | MissingEnv | DbError string

text \<open>A JSON scalar that the source compares with \<open>===\<close> against a literal: a number
  or a string.\<close>

datatype scalar = Num int | Str jsstring

text \<open>An array, or the single object that the source wraps into an array.\<close>

datatype 'a payload = Arr "'a list" | Single 'a

subsection \<open>Classification service\<close>

text \<open>An element of \<open>classificationItemNames\<close>; a missing \<open>name\<close> is the empty
  string (both are falsy).\<close>

record item_name =
  in_lang :: jsstring
  in_name :: jsstring

text \<open>An element of \<open>explanatoryNotes\<close>.  Its \<open>lang\<close> is missing, a string or an array of
  strings (both have \<open>indexOf\<close>); \<open>nt_includes\<close> is \<open>None\<close> unless \<open>includes\<close> is an
  array.\<close>

datatype lang_field = NoLang | LangString jsstring | LangArray "jsstring list"

record explanatory_note =
  nt_lang :: lang_field
  nt_includes :: "jsstring list option"

text \<open>An item of the classification listing.  \<open>si_names\<close> is \<open>None\<close> when
  \<open>classificationItemNames\<close> is missing or not an array, and so is \<open>si_notes\<close> for
  \<open>explanatoryNotes\<close>.\<close>

record stat_item =
  si_code :: jsstring
  si_names :: "item_name list option"
  si_notes :: "explanatory_note list option"

text \<open>An entry \<open>{name, description, isFinnish}\<close> of the classification table.\<close>

record classification =
  cl_name :: jsstring
  cl_description :: jsstring
  cl_isFinnish :: bool

text \<open>
  The classification table, the object \<open>industryClassifications\<close>: its own properties
  and its prototype.  The prototype is \<open>Object.prototype\<close> (\<open>None\<close>) until an entry is
  assigned to the key \<open>__proto__\<close>, which makes that entry the prototype of the table.
\<close>

record classifications =
  own_entries :: "jsstring \<rightharpoonup> classification"
  prototype_entry :: "classification option"

text \<open>The object \<open>{}\<close>.\<close>

definition empty_table :: classifications where
  "empty_table = \<lparr> own_entries = Map.empty, prototype_entry = None \<rparr>"

text \<open>\<open>table[key] = entry\<close>.  The key \<open>__proto__\<close> reaches the setter of
  \<open>Object.prototype\<close>, which replaces the prototype and adds no property.\<close>

definition table_set :: "classifications \<Rightarrow> jsstring \<Rightarrow> classification \<Rightarrow> classifications" where
  "table_set t key entry =
     (if key = js ''__proto__'' then t \<lparr> prototype_entry := Some entry \<rparr>
      else t \<lparr> own_entries := (own_entries t)(key \<mapsto> entry) \<rparr>)"

text \<open>What \<open>table[key]\<close> gives: \<open>undefined\<close>; an entry (an own property, or the
  prototype entry under the key \<open>__proto__\<close>); a string or a boolean (a property of the
  prototype entry); a member of \<open>Object.prototype\<close>.\<close>

datatype table_value =
  NoValue
| Entry classification
| StringValue jsstring
| BoolValue bool
| Inherited jsstring

definition table_get :: "classifications \<Rightarrow> jsstring \<Rightarrow> table_value" where
  "table_get t key =
     (case own_entries t key of
        Some entry \<Rightarrow> Entry entry
      | None \<Rightarrow>
          (case prototype_entry t of
             None \<Rightarrow> if key \<in> set inherited_names then Inherited key else NoValue
           | Some p \<Rightarrow>
               if key = js ''name'' then StringValue (cl_name p)
               else if key = js ''description'' then StringValue (cl_description p)
               else if key = js ''isFinnish'' then BoolValue (cl_isFinnish p)
               else if key = js ''__proto__'' then Entry p
               else if key \<in> set prototype_functions then Inherited key
               else NoValue))"

text \<open>The truthiness of such a value, and its properties \<open>name\<close> (\<open>undefined\<close> is the
  empty string, both are falsy) and \<open>isFinnish\<close> (its truthiness).  A string, a boolean
  and the object \<open>Object.prototype\<close> have neither; a function has a \<open>name\<close>.\<close>

definition truthy_value :: "table_value \<Rightarrow> bool" where
  "truthy_value v =
     (case v of
        NoValue \<Rightarrow> False
      | Entry e \<Rightarrow> True
      | StringValue s \<Rightarrow> s \<noteq> []
      | BoolValue b \<Rightarrow> b
      | Inherited k \<Rightarrow> True)"

definition value_name :: "table_value \<Rightarrow> jsstring" where
  "value_name v =
     (case v of
        Entry e \<Rightarrow> cl_name e
      | Inherited k \<Rightarrow> if k = js ''__proto__'' then [] else function_name k
      | _ \<Rightarrow> [])"

definition value_isFinnish :: "table_value \<Rightarrow> bool" where
  "value_isFinnish v = (case v of Entry e \<Rightarrow> cl_isFinnish e | _ \<Rightarrow> False)"

subsection \<open>Company registry\<close>

text \<open>\<open>company.businessId\<close>: a string (flat shape) or an object with \<open>value\<close> and
  \<open>registrationDate\<close> (nested shape); a missing field is the empty string.\<close>

datatype business_id =
  BidFlat jsstring
| BidNested (bid_value: jsstring) (bid_registrationDate: jsstring)

record raw_name =
  n_type :: scalar
  n_endDate :: jsstring
  n_name :: jsstring

record raw_description =
  ds_languageCode :: scalar
  ds_description :: jsstring

record business_line =
  bl_type :: jsstring
  bl_descriptions :: "raw_description list option"

record post_office =
  po_languageCode :: scalar
  po_city :: jsstring

record raw_address =
  a_type :: scalar
  a_street :: jsstring
  a_buildingNumber :: jsstring
  a_entrance :: jsstring
  a_apartmentNumber :: jsstring
  a_postCode :: jsstring
  a_postOffices :: "post_office list option"

record raw_company =
  rc_businessId :: "business_id option"
  rc_registrationDate :: jsstring
  rc_names :: "raw_name list option"
  rc_mainBusinessLine :: "business_line option"
  rc_addresses :: "raw_address list option"

text \<open>The body of a listing response: an array, or an object with \<open>results\<close> or
  \<open>companies\<close>.\<close>

datatype prh_payload =
  PArr "raw_company list"
| PObj (p_results: "raw_company list option") (p_companies: "raw_company list option")

text \<open>The business identifier of a processed company:
  \<open>company.businessId?.value || company.businessId || ''\<close> is a string, or the nested
  object itself when its \<open>value\<close> is missing.\<close>

datatype natural_key = KeyStr jsstring | KeyObj business_id

record details =
  d_name :: jsstring
  d_description :: jsstring
  d_address :: jsstring
  d_registrationDate :: "jsstring option"
  d_categoryName :: jsstring

record company =
  co_name :: jsstring
  co_businessId :: natural_key
  co_industryCode :: jsstring
  co_details :: details

subsection \<open>Investor roster\<close>

text \<open>An element of \<open>investors.json\<close>; a missing string is the empty string, a missing
  list is \<open>None\<close>.\<close>

record investor =
  inv_id :: jsstring
  inv_name :: jsstring
  inv_role :: jsstring
  inv_firm :: jsstring
  inv_location :: jsstring
  inv_preferred_industries :: "jsstring list option"
  inv_business_models :: "jsstring list option"
  inv_preferred_rounds :: "jsstring list option"
  inv_geo_focus :: "jsstring list option"
  inv_check_size_range :: jsstring
  inv_investment_thesis :: jsstring
  inv_avoid_industries :: "jsstring list option"

text \<open>What \<open>processInvestorData\<close> returns.\<close>

record processed_investor =
  pi_investor_id :: jsstring
  pi_name :: jsstring
  pi_details :: investor

subsection \<open>Store\<close>

text \<open>A surrogate id as the store returns it: a number (\<open>BIGSERIAL\<close>), a string
  (\<open>UUID\<close>) or \<open>null\<close>.\<close>

datatype dbid = IdNum int | IdStr jsstring | IdNull

text \<open>A row of the read-back select: \<open>{id, business_id}\<close>.\<close>

record id_record =
  ir_id :: dbid
  ir_key :: jsstring

text \<open>A row of an upsert: of the table \<open>company\<close>, of the table \<open>investor\<close>, or of
  an embeddings table.  An embedding row is \<open>{company_id, embeddings}\<close> (for investors
  \<open>{investor_id, embeddings}\<close>): what the read of the id map gave for the key, and
  \<open>vectors[index]\<close>, \<open>None\<close> when the index is out of range.\<close>

datatype 'v row =
  CompanyRow natural_key jsstring details
| InvestorRow jsstring investor
| EmbeddingRow (row_id: "dbid jsvalue") (row_embeddings: "'v option")

subsection \<open>Effects\<close>

text \<open>
  Every call of an external service is an event: the request and what came back.  The
  trace of a run lists its events in the order they happened.  Console output is not
  modelled.
\<close>

datatype 'v event =
  StatGet "error + stat_item option payload"
| PrhGet nat "error + prh_payload"
| DeeplPost jsstring "error + jsstring"
| VoyagePost "jsstring list" "error + 'v list"
| Upsert string "'v row list" "error option"
| Select string "natural_key list" "error + id_record list"
| ReadInvestors "error + investor list"
| Sleep nat

type_synonym 'v trace = "'v event list"

text \<open>
  The environment of a run answers every request, given the trace so far (so an answer
  may depend on everything that happened before).  A response that makes the source
  throw inside its \<open>try\<close> block is an error.  \<open>getFullYear s\<close> is
  \<open>new Date(s).getFullYear()\<close>, \<open>None\<close> for \<open>NaN\<close>.
\<close>

record 'v env =
  stat_get :: "'v trace \<Rightarrow> error + stat_item option payload"
  prh_get :: "'v trace \<Rightarrow> nat \<Rightarrow> error + prh_payload"
  deepl_post :: "'v trace \<Rightarrow> jsstring \<Rightarrow> error + jsstring"
  voyage_post :: "'v trace \<Rightarrow> jsstring list \<Rightarrow> error + 'v list"
  sb_upsert :: "'v trace \<Rightarrow> string \<Rightarrow> 'v row list \<Rightarrow> error option"
  sb_select :: "'v trace \<Rightarrow> string \<Rightarrow> natural_key list \<Rightarrow> error + id_record list"
  read_investors :: "'v trace \<Rightarrow> error + investor list"
  getFullYear :: "jsstring \<Rightarrow> int option"

text \<open>The environment variables: an unset variable is the empty string (both are
  falsy); \<open>BATCH_SIZE_parsed\<close> is \<open>parseInt(process.env.BATCH_SIZE)\<close>, \<open>None\<close> for
  \<open>NaN\<close>.\<close>

record config =
  SUPABASE_URL :: jsstring
  SUPABASE_ANON_KEY :: jsstring
  VOYAGE_API_KEY :: jsstring
  BATCH_SIZE_parsed :: "int option"

text \<open>\<open>parseInt(process.env.BATCH_SIZE) || 50\<close>: 0 and \<open>NaN\<close> are falsy.\<close>

definition BATCH_SIZE :: "config \<Rightarrow> int" where
  "BATCH_SIZE cfg = (case BATCH_SIZE_parsed cfg of None \<Rightarrow> 50 | Some n \<Rightarrow> if n \<noteq> 0 then n else 50)"

section \<open>Translator\<close>

text \<open>\<open>/[...]/.test(text)\<close> with the six Finnish letters: some code unit of the text is one
  of them.\<close>

definition finnishChars :: "jsstring \<Rightarrow> bool" where
  "finnishChars text \<longleftrightarrow> (\<exists>c \<in> set text. c \<in> {228, 246, 229, 196, 214, 197})"

text \<open>\<open>/^[a-zA-Z\s,.-]+$/.test(text)\<close>: the text is not empty and every code unit is an ASCII
  letter, white space, a comma (44), a full stop (46) or a hyphen (45).\<close>

definition plain_char :: "nat \<Rightarrow> bool" where
  "plain_char c \<longleftrightarrow> is_ascii_letter c \<or> is_space c \<or> c = 44 \<or> c = 46 \<or> c = 45"

definition plain_ascii :: "jsstring \<Rightarrow> bool" where
  "plain_ascii text \<longleftrightarrow> text \<noteq> [] \<and> list_all plain_char text"

text \<open>The own properties of the object literal \<open>translations\<close> of
  \<open>translateFinnishToEnglishBasic\<close>, in the order of the source.\<close>

definition translations_map :: "(jsstring \<times> jsstring) list" where
  "translations_map = [
    (js ''Maatalous, mets'' @ [228] @ js ''talous ja kalatalous'',
      js ''Agriculture, forestry and fishing''),
    (js ''Kaivostoiminta ja louhinta'',
      js ''Mining and quarrying''),
    (js ''Teollisuus'',
      js ''Manufacturing''),
    (js ''S'' @ [228] @ js ''hk'' @ [246] @ js ''-, kaasu- ja l'' @ [228] @ js ''mp'' @ [246] @ js ''huolto, j'' @ [228] @ [228] @ js ''hdytysliiketoiminta'',
      js ''Electricity, gas, steam and air conditioning supply''),
    (js ''Vesihuolto, viem'' @ [228] @ js ''ri- ja j'' @ [228] @ js ''tevesihuolto, j'' @ [228] @ js ''tehuolto ja muu ymp'' @ [228] @ js ''rist'' @ [246] @ js ''n puhtaanapito'',
      js ''Water supply; sewerage, waste management''),
    (js ''Rakentaminen'',
      js ''Construction''),
    (js ''Tukku- ja v'' @ [228] @ js ''hitt'' @ [228] @ js ''iskauppa'',
      js ''Wholesale and retail trade''),
    (js ''Kuljetus ja varastointi'',
      js ''Transportation and storage''),
    (js ''Majoitus- ja ravitsemustoiminta'',
      js ''Accommodation and food service activities''),
    (js ''Informaatio ja viestint'' @ [228],
      js ''Information and communication''),
    (js ''Rahoitus- ja vakuutustoiminta'',
      js ''Financial and insurance activities''),
    (js ''Kiinteist'' @ [246] @ js ''alan toiminta'',
      js ''Real estate activities''),
    (js ''Ammatillinen, tieteellinen ja tekninen toiminta'',
      js ''Professional, scientific and technical activities''),
    (js ''Hallinto- ja tukipalvelutoiminta'',
      js ''Administrative and support service activities''),
    (js ''Julkinen hallinto ja maanpuolustus'',
      js ''Public administration and defence''),
    (js ''Koulutus'',
      js ''Education''),
    (js ''Terveys- ja sosiaalipalvelut'',
      js ''Human health and social work activities''),
    (js ''Taiteet, viihde ja virkistys'',
      js ''Arts, entertainment and recreation''),
    (js ''Muu palvelutoiminta'',
      js ''Other service activities''),
    (js ''Asuntojen ja asuinkiinteist'' @ [246] @ js ''jen hallinta'',
      js ''Residential property management''),
    (js ''Muualla luokittelematon muu liike-el'' @ [228] @ js ''m'' @ [228] @ js ''n tukipalvelutoiminta'',
      js ''Other business support services not elsewhere classified''),
    (js ''Hevosten ja muiden hevosel'' @ [228] @ js ''inten kasvatus'',
      js ''Raising of horses and other equines''),
    (js ''S'' @ [228] @ js ''hk'' @ [246] @ js ''asennus'',
      js ''Electrical installation''),
    (js ''Muurausty'' @ [246] @ js ''t'',
      js ''Masonry work''),
    (js ''Hammasl'' @ [228] @ [228] @ js ''k'' @ [228] @ js ''ripalvelut'',
      js ''Dental practice activities''),
    (js ''Muu l'' @ [228] @ [228] @ js ''kint'' @ [228] @ js ''- ja hammasl'' @ [228] @ [228] @ js ''kint'' @ [228] @ js ''instrumenttien ja -tarvikkeiden valmistus'',
      js ''Other manufacture of medical and dental instruments and supplies''),
    (js ''Tieliikenteen muu kuin s'' @ [228] @ [228] @ js ''nn'' @ [246] @ js ''llinen henkil'' @ [246] @ js ''kuljetus'',
      js ''Other passenger land transport''),
    (js ''Rakennuspaikan valmisteluty'' @ [246] @ js ''t'',
      js ''Site preparation''),
    (js ''Muu kiinteist'' @ [246] @ js ''alan toiminta palkkio- tai sopimusperhsteella'',
      js ''Other real estate activities on a fee or contract basis''),
    (js ''Muualla luokittelematon muu rahoituspalvelutoiminta'',
      js ''Other financial service activities not elsewhere classified''),
    (js ''Kiinteist'' @ [246] @ js ''j'' @ [228] @ js '' koskevat v'' @ [228] @ js ''lityspalvelut'',
      js ''Real estate agency services''),
    (js ''Marjojen, p'' @ [228] @ js ''hkin'' @ [246] @ js ''iden ja muiden puissa ja pensaissa kasvavien hedelmien viljely'',
      js ''Growing of berries, nuts and other tree and bush fruits''),
    (js ''S'' @ [228] @ js ''hk'' @ [246] @ js ''njakelu- ja valvontalaitteiden valmistus'',
      js ''Manufacture of electricity distribution and control apparatus''),
    (js ''Muu rahoitusta palveleva toiminta pois lukien vakuutus- ja el'' @ [228] @ js ''kevakuutustoiminta'',
      js ''Other activities auxiliary to financial services, excluding insurance and pension funding''),
    (js ''Palo- ja pelastustoimi'',
      js ''Fire and rescue services''),
    (js ''Muualla luokittelematon muu liike-el'' @ [228] @ js ''m'' @ [228] @ js ''n tukipalve'',
      js ''Other business support services''),
    (js ''Tieliikenteen muu kuin s'' @ [228] @ [228] @ js ''nn'' @ [246] @ js ''llinen henkil'' @ [246] @ js ''kuljetu'',
      js ''Other passenger land transport''),
    (js ''Muu kiinteist'' @ [246] @ js ''alan toiminta palkkio- tai sopimuspe'',
      js ''Other real estate activities on fee or contract basis''),
    (js ''Muualla luokittelematon muu rahoituspalvelutoimint'',
      js ''Other financial service activities''),
    (js ''Marjojen, p'' @ [228] @ js ''hkin'' @ [246] @ js ''iden ja muiden puissa ja pensaiss'',
      js ''Growing of berries, nuts and tree fruits''),
    (js ''Muu l'' @ [228] @ [228] @ js ''kint'' @ [228] @ js ''- ja hammasl'' @ [228] @ [228] @ js ''kint'' @ [228] @ js ''instrumenttien ja -'',
      js ''Other manufacture of medical and dental instruments''),
    (js ''Muu rahoitusta palveleva toiminta pois lukien vaku'',
      js ''Other activities auxiliary to financial services'')
  ]"

text \<open>\<open>translations[finnishText] || finnishText\<close>: a missing entry and an empty entry both
  give the text back; a text that names a member of \<open>Object.prototype\<close> gives that
  member, which is truthy.\<close>

definition translateFinnishToEnglishBasic :: "jsstring \<Rightarrow> jsstring jsvalue" where
  "translateFinnishToEnglishBasic finnishText =
     (case js_get (map_of translations_map) finnishText of
        Undefined \<Rightarrow> Val finnishText
      | Val t \<Rightarrow> if t \<noteq> [] then Val t else Val finnishText
      | Member k \<Rightarrow> Member k)"

text \<open>
  \<open>translateToEnglish\<close>.  The answer \<open>Inr t\<close> of the translation service is
  \<open>response.data.translations[0].text\<close>; everything thrown inside the \<open>try\<close> block
  (a failed request, a malformed body) is caught and leads to the fallback table.  The
  \<open>catch\<close> block calls \<open>substring\<close> on what the fallback gave: on a value that is not a
  string this throws a \<open>TypeError\<close>, which leaves the function.
\<close>

definition translateToEnglish ::
  "'v env \<Rightarrow> jsstring \<Rightarrow> 'v trace \<Rightarrow> (error + jsstring) \<times> 'v trace" where
  "translateToEnglish env text tr =
     (if text = [] then (Inr text, tr)
      else if \<not> finnishChars text \<and> plain_ascii text then (Inr text, tr)
      else
        (let r = deepl_post env tr text;
             tr' = tr @ [DeeplPost text r]
         in case r of
              Inr translated \<Rightarrow> (Inr (if translated \<noteq> [] then translated else text), tr')
            | Inl e \<Rightarrow>
                (case translateFinnishToEnglishBasic text of
                   Val basicTranslation \<Rightarrow> (Inr basicTranslation, tr')
                 | _ \<Rightarrow> (Inl (TypeError ''basicTranslation.substring is not a function''), tr'))))"

section \<open>Registry source adapter\<close>

subsection \<open>Address\<close>

text \<open>\<open>a || b\<close> on strings: the empty string is falsy.\<close>

definition js_or :: "jsstring \<Rightarrow> jsstring \<Rightarrow> jsstring" where
  "js_or a b = (if a \<noteq> [] then a else b)"

text \<open>\<open>s.replace(/^,\s*/, '')\<close>: a leading comma goes, with the white space after it.\<close>

fun strip_comma_start :: "jsstring \<Rightarrow> jsstring" where
  "strip_comma_start [] = []"
| "strip_comma_start (c # cs) = (if c = 44 then dropWhile is_space cs else c # cs)"

text \<open>\<open>s.replace(/,\s*$/, '')\<close>: the leftmost comma that only white space follows goes,
  with that white space.\<close>

fun strip_comma_end :: "jsstring \<Rightarrow> jsstring" where
  "strip_comma_end [] = []"
| "strip_comma_end (c # cs) =
     (if c = 44 \<and> list_all is_space cs then [] else c # strip_comma_end cs)"

text \<open>\<open>postOffices?.find(p => p.languageCode === lang)?.city\<close>, the empty string when there
  is none.\<close>

definition city_in :: "post_office list option \<Rightarrow> jsstring \<Rightarrow> jsstring" where
  "city_in pos lang =
     (case pos of
        None \<Rightarrow> []
      | Some ps \<Rightarrow>
          (case find (\<lambda>p. po_languageCode p = Str lang) ps of
             None \<Rightarrow> []
           | Some p \<Rightarrow> po_city p))"

text \<open>\<open>postOffices?.[0]?.city\<close>.\<close>

definition first_city :: "post_office list option \<Rightarrow> jsstring" where
  "first_city pos = (case pos of Some (p # _) \<Rightarrow> po_city p | _ \<Rightarrow> [])"

text \<open>The body of \<open>if (visitingAddress) { ... }\<close>: the address string of one address
  object.\<close>

definition compose_address :: "raw_address \<Rightarrow> jsstring" where
  "compose_address visitingAddress =
     (let street = a_street visitingAddress;
          buildingNumber = a_buildingNumber visitingAddress;
          entrance = (if a_entrance visitingAddress \<noteq> []
                      then js '' '' @ a_entrance visitingAddress else []);
          apartmentNumber = (if a_apartmentNumber visitingAddress \<noteq> []
                             then js '' '' @ a_apartmentNumber visitingAddress else []);
          postCode = a_postCode visitingAddress;
          city = js_or (city_in (a_postOffices visitingAddress) (js ''3''))
                   (js_or (city_in (a_postOffices visitingAddress) (js ''1''))
                      (first_city (a_postOffices visitingAddress)));
          addressParts =
            concat (filter (\<lambda>part. part \<noteq> []) [street, buildingNumber, entrance, apartmentNumber])
      in strip_comma_end (strip_comma_start
           (trim (addressParts @ js '', '' @ postCode @ js '' '' @ city))))"

text \<open>The address of a company: its first address of type 1, else its first address; the
  empty string when it has none.\<close>

definition extract_address :: "raw_company \<Rightarrow> jsstring" where
  "extract_address company =
     (case rc_addresses company of
        None \<Rightarrow> []
      | Some [] \<Rightarrow> []
      | Some (a0 # rest) \<Rightarrow>
          (case find (\<lambda>a. a_type a = Num 1) (a0 # rest) of
             Some a \<Rightarrow> compose_address a
           | None \<Rightarrow> compose_address a0))"

subsection \<open>Classification cache\<close>

text \<open>The entry that \<open>fetchIndustryClassifications\<close> stores for an item: the English
  name, else the Finnish name, else the empty string; \<open>isFinnish\<close> when no name is
  English.\<close>

definition name_in :: "item_name list \<Rightarrow> jsstring \<Rightarrow> jsstring" where
  "name_in ns l = (case find (\<lambda>n. in_lang n = l) ns of None \<Rightarrow> [] | Some n \<Rightarrow> in_name n)"

text \<open>\<open>String.prototype.indexOf\<close> and \<open>Array.prototype.indexOf\<close>, counting from \<open>i\<close>: the
  first position at which the string occurs, the first element equal to it; -1 when
  there is none.\<close>

fun index_of_string :: "jsstring \<Rightarrow> jsstring \<Rightarrow> nat \<Rightarrow> int" where
  "index_of_string [] sub i = (if sub = [] then int i else - 1)"
| "index_of_string (c # cs) sub i =
     (if take (length sub) (c # cs) = sub then int i else index_of_string cs sub (i + 1))"

fun index_of_element :: "jsstring list \<Rightarrow> jsstring \<Rightarrow> nat \<Rightarrow> int" where
  "index_of_element [] x i = - 1"
| "index_of_element (y # ys) x i = (if y = x then int i else index_of_element ys x (i + 1))"

text \<open>\<open>note.lang?.indexOf(l) || -1\<close>: the index 0 is falsy and becomes -1 as well.\<close>

definition lang_index :: "lang_field \<Rightarrow> jsstring \<Rightarrow> int" where
  "lang_index lang l =
     (case lang of
        NoLang \<Rightarrow> - 1
      | LangString s \<Rightarrow> (if index_of_string s l 0 \<noteq> 0 then index_of_string s l 0 else - 1)
      | LangArray a \<Rightarrow> (if index_of_element a l 0 \<noteq> 0 then index_of_element a l 0 else - 1))"

text \<open>\<open>note.includes[i] || ''\<close> for an index that is not negative.\<close>

definition included :: "jsstring list \<Rightarrow> int \<Rightarrow> jsstring" where
  "included note_includes i = (case at_index note_includes (nat i) of None \<Rightarrow> [] | Some s \<Rightarrow> s)"

text \<open>The description of an item, from the first of its explanatory notes.\<close>

definition item_description :: "stat_item \<Rightarrow> jsstring" where
  "item_description item =
     (case si_notes item of
        Some (first_note # _) \<Rightarrow>
          (case nt_includes first_note of
             None \<Rightarrow> []
           | Some note_includes \<Rightarrow>
               (let englishIndex = lang_index (nt_lang first_note) (js ''en'');
                    finnishIndex = lang_index (nt_lang first_note) (js ''fi'')
                in if englishIndex \<ge> 0 then included note_includes englishIndex
                   else if finnishIndex \<ge> 0 then included note_includes finnishIndex
                   else included note_includes 0))
      | _ \<Rightarrow> [])"

definition item_entry :: "stat_item \<Rightarrow> classification" where
  "item_entry item =
     \<lparr> cl_name =
         (case si_names item of
            None \<Rightarrow> []
          | Some ns \<Rightarrow> js_or (name_in ns (js ''en'')) (js_or (name_in ns (js ''fi'')) [])),
       cl_description = item_description item,
       cl_isFinnish =
         (\<not> (case si_names item of
                None \<Rightarrow> False
              | Some ns \<Rightarrow> list_ex (\<lambda>n. in_lang n = js ''en'') ns)) \<rparr>"

text \<open>The \<open>forEach\<close> over the items, on the object that the module variable already
  holds: an item without a code is skipped, a \<open>null\<close> item throws (the second
  component), and the entries stored before it stay.\<close>

fun load_items :: "stat_item option list \<Rightarrow> classifications \<Rightarrow> classifications \<times> error option" where
  "load_items [] m = (m, None)"
| "load_items (None # rest) m = (m, Some (TypeError ''item is null''))"
| "load_items (Some item # rest) m =
     load_items rest (if si_code item \<noteq> [] then table_set m (si_code item) (item_entry item) else m)"

text \<open>
  \<open>fetchIndustryClassifications\<close>.  The module variable \<open>industryClassifications\<close> is
  the \<open>cache\<close>: \<open>None\<close> for \<open>null\<close>, and any object, the empty one included, is
  truthy.  The function returns the table, the new value of the variable and the
  trace.
\<close>

definition fetchIndustryClassifications ::
  "'v env \<Rightarrow> classifications option \<Rightarrow> 'v trace \<Rightarrow> classifications \<times> classifications option \<times> 'v trace" where
  "fetchIndustryClassifications env cache tr =
     (case cache of
        Some industryClassifications \<Rightarrow> (industryClassifications, cache, tr)
      | None \<Rightarrow>
          (let r = stat_get env tr;
               tr' = tr @ [StatGet r]
           in case r of
                Inl e \<Rightarrow> (empty_table, None, tr')
              | Inr payload \<Rightarrow>
                  (let data = (case payload of Arr xs \<Rightarrow> xs | Single x \<Rightarrow> [x])
                   in case load_items data empty_table of
                        (m, None) \<Rightarrow> (m, Some m, tr')
                      | (m, Some e) \<Rightarrow> (empty_table, Some m, tr'))))"

text \<open>\<open>n\<close> calls of \<open>fetchIndustryClassifications\<close> one after the other in the same
  process: what each call returned, and the module variable and the trace after the
  last one.\<close>

fun fetch_times ::
  "'v env \<Rightarrow> nat \<Rightarrow> classifications option \<Rightarrow> 'v trace \<Rightarrow>
     classifications list \<times> classifications option \<times> 'v trace" where
  "fetch_times env 0 cache tr = ([], cache, tr)"
| "fetch_times env (Suc n) cache tr =
     (case fetchIndustryClassifications env cache tr of
        (m, cache1, tr1) \<Rightarrow>
          (case fetch_times env n cache1 tr1 of
             (ms, cache2, tr2) \<Rightarrow> (m # ms, cache2, tr2)))"

subsection \<open>Listing pages\<close>

text \<open>\<open>company.businessId?.registrationDate || company.registrationDate\<close>.\<close>

definition reg_date :: "raw_company \<Rightarrow> jsstring" where
  "reg_date company =
     js_or (case rc_businessId company of Some (BidNested v r) \<Rightarrow> r | _ \<Rightarrow> [])
       (rc_registrationDate company)"

text \<open>\<open>company.mainBusinessLine?.type\<close>.\<close>

definition industry_code :: "raw_company \<Rightarrow> jsstring" where
  "industry_code company =
     (case rc_mainBusinessLine company of None \<Rightarrow> [] | Some bl \<Rightarrow> bl_type bl)"

text \<open>The filter of a page: \<open>year >= 2020 && hasIndustryCode\<close>, where the year of a
  missing date is 0 and \<open>NaN >= 2020\<close> is false.\<close>

definition validCompany :: "'v env \<Rightarrow> raw_company \<Rightarrow> bool" where
  "validCompany env company =
     (let regDate = reg_date company;
          hasIndustryCode = industry_code company;
          year = (if regDate \<noteq> [] then getFullYear env regDate else Some 0)
      in (case year of None \<Rightarrow> False | Some y \<Rightarrow> y \<ge> 2020) \<and> hasIndustryCode \<noteq> [])"

text \<open>\<open>Array.isArray(response.data) ? response.data :
  (response.data.results || response.data.companies || [])\<close>; an array is truthy.\<close>

definition page_data :: "prh_payload \<Rightarrow> raw_company list" where
  "page_data payload =
     (case payload of
        PArr xs \<Rightarrow> xs
      | PObj results companies \<Rightarrow>
          (case results of
             Some r \<Rightarrow> r
           | None \<Rightarrow> (case companies of Some c \<Rightarrow> c | None \<Rightarrow> [])))"

definition resultsPerPage :: nat where
  "resultsPerPage = 100"

text \<open>
  The \<open>while\<close> loop of \<open>fetchCompaniesFromAPI\<close>, from the state
  \<open>allFetchedCompanies\<close>, \<open>page\<close>.  A failed request leaves the function with its
  error.
\<close>

function fetch_pages ::
  "'v env \<Rightarrow> nat \<Rightarrow> raw_company list \<Rightarrow> nat \<Rightarrow> 'v trace \<Rightarrow> (error + raw_company list) \<times> 'v trace" where
  "fetch_pages env maxResults allFetchedCompanies page tr =
     (if length allFetchedCompanies < maxResults then
        (let r = prh_get env tr page;
             tr1 = tr @ [PrhGet page r]
         in case r of
              Inl e \<Rightarrow> (Inl e, tr1)
            | Inr payload \<Rightarrow>
                (let pageData = page_data payload
                 in if length pageData = 0 then (Inr allFetchedCompanies, tr1)
                    else
                      (let validCompanies = filter (validCompany env) pageData;
                           allFetchedCompanies' = allFetchedCompanies @ validCompanies
                       in if length allFetchedCompanies' \<ge> maxResults then (Inr allFetchedCompanies', tr1)
                          else if length pageData < resultsPerPage then (Inr allFetchedCompanies', tr1)
                          else if page + 1 > 50 then (Inr allFetchedCompanies', tr1)
                          else fetch_pages env maxResults allFetchedCompanies' (page + 1)
                                 (tr1 @ [Sleep 200]))))
      else (Inr allFetchedCompanies, tr))"
  by pat_completeness auto
termination
  by (relation "measure (\<lambda>(env, maxResults, allFetchedCompanies, page, tr). 51 - page)") auto

subsection \<open>Normalisation of a record\<close>

text \<open>\<open>company.businessId?.value || company.businessId || ''\<close>.\<close>

definition extract_businessId :: "raw_company \<Rightarrow> natural_key" where
  "extract_businessId company =
     (case rc_businessId company of
        None \<Rightarrow> KeyStr []
      | Some (BidFlat s) \<Rightarrow> KeyStr s
      | Some (BidNested v r) \<Rightarrow> if v \<noteq> [] then KeyStr v else KeyObj (BidNested v r))"

text \<open>The name whose type is \<open>'1'\<close> and that has no end date, else the first name, else
  \<open>Unknown\<close>.\<close>

definition extract_name :: "raw_company \<Rightarrow> jsstring" where
  "extract_name company =
     (case rc_names company of
        None \<Rightarrow> js ''Unknown''
      | Some [] \<Rightarrow> js ''Unknown''
      | Some (n0 # rest) \<Rightarrow>
          js_or (case find (\<lambda>n. n_type n = Str (js ''1'') \<and> n_endDate n = []) (n0 # rest) of
                   None \<Rightarrow> []
                 | Some activeName \<Rightarrow> n_name activeName)
            (js_or (n_name n0) (js ''Unknown'')))"

text \<open>The description whose language code is \<open>'3'\<close>, else the first description, else
  the empty string.\<close>

definition extract_description :: "raw_company \<Rightarrow> jsstring" where
  "extract_description company =
     (case rc_mainBusinessLine company of
        None \<Rightarrow> []
      | Some bl \<Rightarrow>
          (case bl_descriptions bl of
             None \<Rightarrow> []
           | Some ds \<Rightarrow>
               js_or (case find (\<lambda>d. ds_languageCode d = Str (js ''3'')) ds of
                        None \<Rightarrow> []
                      | Some englishDesc \<Rightarrow> ds_description englishDesc)
                 (js_or (case ds of [] \<Rightarrow> [] | d0 # _ \<Rightarrow> ds_description d0) [])))"

text \<open>The category name: the \<open>name\<close> of what the table gives for the industry code,
  translated when that is Finnish; \<open>Industry Code: <code>\<close> when the table gives
  nothing truthy; the empty string when there is no code.  An error of the translator
  leaves the function.\<close>

definition category_name ::
  "'v env \<Rightarrow> classifications \<Rightarrow> jsstring \<Rightarrow> 'v trace \<Rightarrow> (error + jsstring) \<times> 'v trace" where
  "category_name env classifications industryCode tr =
     (if industryCode \<noteq> [] \<and> truthy_value (table_get classifications industryCode) then
        (let classification = table_get classifications industryCode
         in if value_name classification \<noteq> [] \<and> value_isFinnish classification
            then translateToEnglish env (value_name classification) tr
            else (Inr (value_name classification), tr))
      else if industryCode \<noteq> [] then (Inr (js ''Industry Code: '' @ industryCode), tr)
      else (Inr [], tr))"

text \<open>One round of the \<open>for\<close> loop over the companies.\<close>

definition processCompany ::
  "'v env \<Rightarrow> classifications \<Rightarrow> raw_company \<Rightarrow> 'v trace \<Rightarrow> (error + company) \<times> 'v trace" where
  "processCompany env classifications company tr =
     (let businessId = extract_businessId company;
          companyName = extract_name company;
          description = extract_description company;
          address = extract_address company;
          registrationDate = (if reg_date company \<noteq> [] then Some (reg_date company) else None);
          industryCode = industry_code company
      in case category_name env classifications industryCode tr of
           (Inl e, tr') \<Rightarrow> (Inl e, tr')
         | (Inr categoryName, tr') \<Rightarrow>
             (Inr \<lparr> co_name = companyName,
                    co_businessId = businessId,
                    co_industryCode = industryCode,
                    co_details = \<lparr> d_name = companyName,
                                   d_description = description,
                                   d_address = address,
                                   d_registrationDate = registrationDate,
                                   d_categoryName = categoryName \<rparr> \<rparr>, tr'))"

text \<open>The \<open>for\<close> loop: the first error ends it.\<close>

fun processCompanies ::
  "'v env \<Rightarrow> classifications \<Rightarrow> raw_company list \<Rightarrow> 'v trace \<Rightarrow>
     (error + company list) \<times> 'v trace" where
  "processCompanies env classifications [] tr = (Inr [], tr)"
| "processCompanies env classifications (company # companies) tr =
     (case processCompany env classifications company tr of
        (Inl e, tr1) \<Rightarrow> (Inl e, tr1)
      | (Inr p, tr1) \<Rightarrow>
          (case processCompanies env classifications companies tr1 of
             (Inl e, tr2) \<Rightarrow> (Inl e, tr2)
           | (Inr ps, tr2) \<Rightarrow> (Inr (p # ps), tr2)))"

subsection \<open>The fetch\<close>

text \<open>\<open>Array.prototype.slice(start, end)\<close>, negative indices counting from the end.\<close>

definition js_slice :: "'a list \<Rightarrow> int \<Rightarrow> int \<Rightarrow> 'a list" where
  "js_slice xs start end' =
     (let len = int (length xs);
          k = (if start < 0 then max (len + start) 0 else min start len);
          final = (if end' < 0 then max (len + end') 0 else min end' len)
      in take (nat (final - k)) (drop (nat k) xs))"

text \<open>
  \<open>fetchCompaniesFromAPI(maxResults)\<close>, for a count \<open>maxResults\<close> that is a natural
  number.  Every error is thrown again by the \<open>catch\<close> block.
\<close>

definition fetchCompaniesFromAPI ::
  "'v env \<Rightarrow> nat \<Rightarrow> classifications option \<Rightarrow> 'v trace \<Rightarrow>
     (error + company list) \<times> classifications option \<times> 'v trace" where
  "fetchCompaniesFromAPI env maxResults cache tr =
     (case fetchIndustryClassifications env cache tr of
        (classifications, cache1, tr1) \<Rightarrow>
          (case fetch_pages env maxResults [] 1 tr1 of
             (Inl e, tr2) \<Rightarrow> (Inl e, cache1, tr2)
           | (Inr allFetchedCompanies, tr2) \<Rightarrow>
               if length allFetchedCompanies = 0 then (Inr [], cache1, tr2)
               else
                 (let companies = js_slice allFetchedCompanies 0 (int maxResults)
                  in case processCompanies env classifications companies tr2 of
                       (Inl e, tr3) \<Rightarrow> (Inl e, cache1, tr3)
                     | (Inr processedCompanies, tr3) \<Rightarrow> (Inr processedCompanies, cache1, tr3))))"

section \<open>Text normaliser\<close>

text \<open>The string of a business identifier in a template literal or as a property key.\<close>

definition key_string :: "natural_key \<Rightarrow> jsstring" where
  "key_string k = (case k of KeyStr s \<Rightarrow> s | KeyObj b \<Rightarrow> js ''[object Object]'')"

definition createCompanyText :: "company \<Rightarrow> jsstring" where
  "createCompanyText company =
     (let name = js_or (d_name (co_details company)) (co_name company);
          description = d_description (co_details company);
          address = d_address (co_details company);
          registrationDate =
            (case d_registrationDate (co_details company) of None \<Rightarrow> [] | Some r \<Rightarrow> r);
          categoryName = d_categoryName (co_details company)
      in js ''Company: '' @ name @ js ''. Business ID: '' @ key_string (co_businessId company) @
         js ''. Industry: '' @ categoryName @ js ''. Description: '' @ description @
         js ''. Address: '' @ address @ js ''. Registration Date: '' @
         js_or registrationDate (js ''N/A'') @ js ''.'')"

text \<open>\<open>xs?.join(', ') || ''\<close>.\<close>

fun join_comma :: "jsstring list \<Rightarrow> jsstring" where
  "join_comma [] = []"
| "join_comma [x] = x"
| "join_comma (x # y # ys) = x @ js '', '' @ join_comma (y # ys)"

definition joined :: "jsstring list option \<Rightarrow> jsstring" where
  "joined xs = (case xs of None \<Rightarrow> [] | Some l \<Rightarrow> join_comma l)"

definition processInvestorData :: "investor \<Rightarrow> processed_investor" where
  "processInvestorData investor =
     \<lparr> pi_investor_id = inv_id investor, pi_name = inv_name investor, pi_details = investor \<rparr>"

definition createInvestorText :: "investor \<Rightarrow> jsstring" where
  "createInvestorText investor =
     js ''Investor: '' @ inv_name investor @ js ''. Role: '' @ inv_role investor @
     (if inv_firm investor \<noteq> [] then js '' at '' @ inv_firm investor else []) @
     js ''. Location: '' @ inv_location investor @
     js ''. Investment Thesis: '' @ inv_investment_thesis investor @
     js ''. Preferred Industries: '' @ joined (inv_preferred_industries investor) @
     js ''. Business Models: '' @ joined (inv_business_models investor) @
     js ''. Preferred Rounds: '' @ joined (inv_preferred_rounds investor) @
     js ''. Geographic Focus: '' @ joined (inv_geo_focus investor) @
     js ''. Check Size: '' @ inv_check_size_range investor @
     js ''. Avoid Industries: '' @ joined (inv_avoid_industries investor) @ js ''.''"

section \<open>Batch vectoriser\<close>

definition batchSize :: nat where
  "batchSize = 100"

text \<open>
  The \<open>for\<close> loop of \<open>vectorizeWithVoyage\<close>, from the state \<open>i\<close>, \<open>allVectors\<close>.  The
  answer \<open>Inr vectors\<close> of the embedding service is
  \<open>response.data.data.map(item => item.embedding)\<close>; whatever is thrown inside the
  \<open>try\<close> block is thrown again by its \<open>catch\<close>.
\<close>

function vectorize_loop ::
  "'v env \<Rightarrow> jsstring list \<Rightarrow> nat \<Rightarrow> 'v list \<Rightarrow> 'v trace \<Rightarrow> (error + 'v list) \<times> 'v trace" where
  "vectorize_loop env texts i allVectors tr =
     (if i < length texts then
        (let batch = js_slice texts (int i) (int (i + batchSize));
             r = voyage_post env tr batch;
             tr1 = tr @ [VoyagePost batch r]
         in case r of
              Inl e \<Rightarrow> (Inl e, tr1)
            | Inr vectors \<Rightarrow>
                vectorize_loop env texts (i + batchSize) (allVectors @ vectors)
                  (if i + batchSize < length texts then tr1 @ [Sleep 60000] else tr1))
      else (Inr allVectors, tr))"
  by pat_completeness auto
termination
  by (relation "measure (\<lambda>(env, texts, i, allVectors, tr). length texts - i)")
    (auto simp: batchSize_def)

definition vectorizeWithVoyage ::
  "'v env \<Rightarrow> jsstring list \<Rightarrow> 'v trace \<Rightarrow> (error + 'v list) \<times> 'v trace" where
  "vectorizeWithVoyage env texts tr = vectorize_loop env texts 0 [] tr"

section \<open>Store writer\<close>

text \<open>
  The id map, the object \<open>businessIdToCompanyId\<close> (\<open>investorIdToDbId\<close>): its own
  properties, and whether its prototype still is \<open>Object.prototype\<close>.
\<close>

record id_table =
  own_ids :: "jsstring \<rightharpoonup> dbid"
  has_prototype :: bool

text \<open>
  \<open>map[record.business_id] = record.id\<close>.  The key \<open>__proto__\<close> reaches the setter of
  \<open>Object.prototype\<close> while that is the prototype: the setter adds no property, ignores
  a number or a string, and on \<open>null\<close> removes the prototype.  Every other assignment
  adds or overwrites an own property.
\<close>

definition id_set :: "id_record \<Rightarrow> id_table \<Rightarrow> id_table" where
  "id_set record m =
     (if ir_key record = js ''__proto__'' \<and> has_prototype m then
        (if ir_id record = IdNull then m \<lparr> has_prototype := False \<rparr> else m)
      else m \<lparr> own_ids := (own_ids m)(ir_key record \<mapsto> ir_id record) \<rparr>)"

text \<open>The \<open>forEach\<close> that fills the id map, from the object \<open>{}\<close>.\<close>

definition id_map :: "id_record list \<Rightarrow> id_table" where
  "id_map records = fold id_set records \<lparr> own_ids = Map.empty, has_prototype = True \<rparr>"

text \<open>\<open>map[key]\<close>.\<close>

definition id_get :: "id_table \<Rightarrow> jsstring \<Rightarrow> dbid jsvalue" where
  "id_get m key =
     (case own_ids m key of
        Some v \<Rightarrow> Val v
      | None \<Rightarrow> if has_prototype m \<and> key \<in> set inherited_names then Member key else Undefined)"

text \<open>The truthiness of what the id map gave: \<open>undefined\<close>, \<open>null\<close>, 0 and the empty
  string are falsy; a member of \<open>Object.prototype\<close> is truthy.\<close>

definition truthy_id :: "dbid jsvalue \<Rightarrow> bool" where
  "truthy_id x =
     (case x of
        Undefined \<Rightarrow> False
      | Val IdNull \<Rightarrow> False
      | Val (IdNum n) \<Rightarrow> n \<noteq> 0
      | Val (IdStr s) \<Rightarrow> s \<noteq> []
      | Member k \<Rightarrow> True)"

text \<open>\<open>companies.map((company, index) => ({company_id: ..., embeddings: vectors[index]}))
  .filter(item => item.company_id)\<close>.\<close>

definition embeddingData :: "id_table \<Rightarrow> company list \<Rightarrow> 'v list \<Rightarrow> 'v row list" where
  "embeddingData businessIdToCompanyId companies vectors =
     filter (\<lambda>item. truthy_id (row_id item))
       (map (\<lambda>(index, company).
               EmbeddingRow (id_get businessIdToCompanyId (key_string (co_businessId company)))
                 (at_index vectors index))
          (enumerate 0 companies))"

definition embeddingData_investor ::
  "id_table \<Rightarrow> processed_investor list \<Rightarrow> 'v list \<Rightarrow> 'v row list" where
  "embeddingData_investor investorIdToDbId investors vectors =
     filter (\<lambda>item. truthy_id (row_id item))
       (map (\<lambda>(index, investor).
               EmbeddingRow (id_get investorIdToDbId (pi_investor_id investor))
                 (at_index vectors index))
          (enumerate 0 investors))"

text \<open>
  The loop that writes the embedding rows in batches of \<open>BATCH_SIZE\<close>, from the index
  \<open>i\<close>, into the embeddings table.  With a batch size that is not positive the loop
  of the source never ends; such a run has the value \<open>None\<close>.
\<close>

partial_function (option) upsert_batches ::
  "'v env \<Rightarrow> string \<Rightarrow> int \<Rightarrow> 'v row list \<Rightarrow> int \<Rightarrow> 'v trace \<Rightarrow> ((error + unit) \<times> 'v trace) option" where
  "upsert_batches env table bsize rows i tr =
     (if i < int (length rows) then
        (let batch = js_slice rows i (i + bsize);
             r = sb_upsert env tr table batch;
             tr' = tr @ [Upsert table batch r]
         in case r of
              Some embeddingError \<Rightarrow> Some (Inl embeddingError, tr')
            | None \<Rightarrow> upsert_batches env table bsize rows (i + bsize) tr')
      else Some (Inr (), tr))"

declare upsert_batches.simps [code]

text \<open>\<open>storeInSupabase\<close> of the company pipeline.\<close>

definition storeInSupabase ::
  "'v env \<Rightarrow> int \<Rightarrow> company list \<Rightarrow> 'v list \<Rightarrow> 'v trace \<Rightarrow> ((error + unit) \<times> 'v trace) option" where
  "storeInSupabase env bsize companies vectors tr =
     (let companyData =
            map (\<lambda>company. CompanyRow (co_businessId company) (co_name company) (co_details company))
              companies;
          r1 = sb_upsert env tr ''company'' companyData;
          tr1 = tr @ [Upsert ''company'' companyData r1]
      in case r1 of
           Some companyError \<Rightarrow> Some (Inl companyError, tr1)
         | None \<Rightarrow>
             (let keys = map co_businessId companies;
                  r2 = sb_select env tr1 ''company'' keys;
                  tr2 = tr1 @ [Select ''company'' keys r2]
              in case r2 of
                   Inl fetchError \<Rightarrow> Some (Inl fetchError, tr2)
                 | Inr companyRecords \<Rightarrow>
                     upsert_batches env ''company_embeddings'' bsize
                       (embeddingData (id_map companyRecords) companies vectors) 0 tr2))"

text \<open>\<open>storeInSupabase\<close> of the investor pipeline.\<close>

definition storeInSupabase_investor ::
  "'v env \<Rightarrow> int \<Rightarrow> processed_investor list \<Rightarrow> 'v list \<Rightarrow> 'v trace \<Rightarrow>
     ((error + unit) \<times> 'v trace) option" where
  "storeInSupabase_investor env bsize investors vectors tr =
     (let investorData =
            map (\<lambda>investor. InvestorRow (pi_investor_id investor) (pi_details investor)) investors;
          r1 = sb_upsert env tr ''investor'' investorData;
          tr1 = tr @ [Upsert ''investor'' investorData r1]
      in case r1 of
           Some investorError \<Rightarrow> Some (Inl investorError, tr1)
         | None \<Rightarrow>
             (let keys = map (\<lambda>i. KeyStr (pi_investor_id i)) investors;
                  r2 = sb_select env tr1 ''investor'' keys;
                  tr2 = tr1 @ [Select ''investor'' keys r2]
              in case r2 of
                   Inl fetchError \<Rightarrow> Some (Inl fetchError, tr2)
                 | Inr investorRecords \<Rightarrow>
                     upsert_batches env ''investor_embeddings'' bsize
                       (embeddingData_investor (id_map investorRecords) investors vectors) 0 tr2))"

section \<open>The two pipelines\<close>

text \<open>
  \<open>main\<close> of the company pipeline, from the start of the process (nothing cached, no
  event yet).  The result is the exit code of the process and the trace: 1 when the
  \<open>catch\<close> block calls \<open>process.exit(1)\<close>, 0 when \<open>main\<close> returns.
\<close>

definition missing_env :: "config \<Rightarrow> bool" where
  "missing_env cfg \<longleftrightarrow> SUPABASE_URL cfg = [] \<or> SUPABASE_ANON_KEY cfg = [] \<or> VOYAGE_API_KEY cfg = []"

definition main :: "'v env \<Rightarrow> config \<Rightarrow> (nat \<times> 'v trace) option" where
  "main env cfg =
     (if missing_env cfg then Some (1, [])
      else
        (case fetchCompaniesFromAPI env 500 None [] of
           (Inl e, cache, tr1) \<Rightarrow> Some (1, tr1)
         | (Inr companies, cache, tr1) \<Rightarrow>
             if length companies = 0 then Some (0, tr1)
             else
               (let companyTexts = map createCompanyText companies
                in case vectorizeWithVoyage env companyTexts tr1 of
                     (Inl e, tr2) \<Rightarrow> Some (1, tr2)
                   | (Inr vectors, tr2) \<Rightarrow>
                       (case storeInSupabase env (BATCH_SIZE cfg) companies vectors tr2 of
                          None \<Rightarrow> None
                        | Some (Inl e, tr3) \<Rightarrow> Some (1, tr3)
                        | Some (Inr u, tr3) \<Rightarrow> Some (0, tr3)))))"

text \<open>\<open>loadInvestorsFromJSON\<close>: the parsed roster file, or the error of reading or
  parsing it.\<close>

definition loadInvestorsFromJSON :: "'v env \<Rightarrow> 'v trace \<Rightarrow> (error + investor list) \<times> 'v trace" where
  "loadInvestorsFromJSON env tr = (read_investors env tr, tr @ [ReadInvestors (read_investors env tr)])"

text \<open>\<open>main\<close> of the investor pipeline.\<close>

definition main_investor :: "'v env \<Rightarrow> config \<Rightarrow> (nat \<times> 'v trace) option" where
  "main_investor env cfg =
     (if missing_env cfg then Some (1, [])
      else
        (case loadInvestorsFromJSON env [] of
           (Inl e, tr1) \<Rightarrow> Some (1, tr1)
         | (Inr rawInvestors, tr1) \<Rightarrow>
             if length rawInvestors = 0 then Some (0, tr1)
             else
               (let investors = map processInvestorData rawInvestors;
                    investorTexts = map createInvestorText rawInvestors
                in case vectorizeWithVoyage env investorTexts tr1 of
                     (Inl e, tr2) \<Rightarrow> Some (1, tr2)
                   | (Inr vectors, tr2) \<Rightarrow>
                       (case storeInSupabase_investor env (BATCH_SIZE cfg) investors vectors tr2 of
                          None \<Rightarrow> None
                        | Some (Inl e, tr3) \<Rightarrow> Some (1, tr3)
                        | Some (Inr u, tr3) \<Rightarrow> Some (0, tr3)))))"

section \<open>Reading a trace\<close>

text \<open>The batches sent to the embedding service, in order, and the vectors that came
  back, in order.\<close>

definition voyage_batches :: "'v trace \<Rightarrow> jsstring list list" where
  "voyage_batches tr = concat (map (\<lambda>ev. case ev of VoyagePost b r \<Rightarrow> [b] | _ \<Rightarrow> []) tr)"

definition voyage_vectors :: "'v trace \<Rightarrow> 'v list" where
  "voyage_vectors tr =
     concat (map (\<lambda>ev. case ev of VoyagePost b (Inr vs) \<Rightarrow> vs | _ \<Rightarrow> []) tr)"

text \<open>A request to the embedding service; one that failed; a request to the store.\<close>

definition is_embed_event :: "'v event \<Rightarrow> bool" where
  "is_embed_event ev = (case ev of VoyagePost b r \<Rightarrow> True | _ \<Rightarrow> False)"

definition failed_embed :: "'v event \<Rightarrow> bool" where
  "failed_embed ev = (case ev of VoyagePost b (Inl e) \<Rightarrow> True | _ \<Rightarrow> False)"

definition is_store_event :: "'v event \<Rightarrow> bool" where
  "is_store_event ev = (case ev of Upsert t rows r \<Rightarrow> True | Select t keys r \<Rightarrow> True | _ \<Rightarrow> False)"

text \<open>A request of the source adapters: to the classification service, to the listing,
  to the translation service, the read of the roster file.\<close>

definition is_source_event :: "'v event \<Rightarrow> bool" where
  "is_source_event ev =
     (case ev of
        StatGet r \<Rightarrow> True
      | PrhGet p r \<Rightarrow> True
      | DeeplPost t r \<Rightarrow> True
      | ReadInvestors r \<Rightarrow> True
      | Sleep n \<Rightarrow> True
      | _ \<Rightarrow> False)"

text \<open>The trace \<open>tr'\<close> continues the trace \<open>tr\<close> with events that all satisfy \<open>P\<close>.\<close>

definition grows_by :: "('v event \<Rightarrow> bool) \<Rightarrow> 'v trace \<Rightarrow> 'v trace \<Rightarrow> bool" where
  "grows_by P tr tr' \<longleftrightarrow> (\<exists>evs. tr' = tr @ evs \<and> list_all P evs)"

text \<open>The listing requests of a trace, in order: the page asked for and the answer.\<close>

definition page_events :: "'v trace \<Rightarrow> (nat \<times> (error + prh_payload)) list" where
  "page_events tr = concat (map (\<lambda>ev. case ev of PrhGet p r \<Rightarrow> [(p, r)] | _ \<Rightarrow> []) tr)"

text \<open>The records that an answer lists, and how many.\<close>

definition listed :: "error + prh_payload \<Rightarrow> raw_company list" where
  "listed r = (case r of Inl e \<Rightarrow> [] | Inr payload \<Rightarrow> page_data payload)"

text \<open>The accumulated filtered records of a sequence of listing answers: the records of
  the answers, in order, that pass the filter.\<close>

definition accumulated :: "'v env \<Rightarrow> (nat \<times> (error + prh_payload)) list \<Rightarrow> raw_company list" where
  "accumulated env ps = filter (validCompany env) (concat (map (\<lambda>(p, r). listed r) ps))"

text \<open>
  The discipline of the listing requests, as the specification words it, for a target
  count \<open>m\<close>, \<open>n\<close> records accumulated so far and \<open>page\<close> the next page: no
  request when the target is reached; otherwise the request is for \<open>page\<close>, which is at
  most 50, and it is the last one exactly when it fails, or the accumulated records
  reach the target, or the page has fewer than 100 records, or the page is the 50th.
\<close>

fun paged :: "'v env \<Rightarrow> nat \<Rightarrow> nat \<Rightarrow> nat \<Rightarrow> (nat \<times> (error + prh_payload)) list \<Rightarrow> bool" where
  "paged env m n page [] = (m \<le> n)"
| "paged env m n page ((p, r) # rest) =
     (n < m \<and> p = page \<and> page \<le> 50 \<and>
      (let n' = n + length (filter (validCompany env) (listed r))
       in if (case r of Inl e \<Rightarrow> True | Inr payload \<Rightarrow> False) \<or> m \<le> n' \<or>
             length (listed r) < resultsPerPage \<or> page = 50
          then rest = []
          else paged env m n' (page + 1) rest))"

text \<open>A request to the classification service or to the translation service.\<close>

definition is_aux_event :: "'v event \<Rightarrow> bool" where
  "is_aux_event ev = (case ev of StatGet r \<Rightarrow> True | DeeplPost t r \<Rightarrow> True | _ \<Rightarrow> False)"

text \<open>The rows written to a table, in order.\<close>

definition upserted :: "string \<Rightarrow> 'v trace \<Rightarrow> 'v row list" where
  "upserted table tr =
     concat (map (\<lambda>ev. case ev of Upsert t rows r \<Rightarrow> if t = table then rows else [] | _ \<Rightarrow> []) tr)"

text \<open>The records that the read-back selects of a trace returned.\<close>

definition read_back :: "'v trace \<Rightarrow> id_record list" where
  "read_back tr =
     concat (map (\<lambda>ev. case ev of Select t keys (Inr records) \<Rightarrow> records | _ \<Rightarrow> []) tr)"

text \<open>The partition of a list into consecutive chunks of \<open>n\<close> elements (the last one
  may be shorter), as the specification words it.\<close>

function chunks_of :: "nat \<Rightarrow> 'a list \<Rightarrow> 'a list list" where
  "chunks_of n xs = (if n = 0 \<or> xs = [] then [] else take n xs # chunks_of n (drop n xs))"
  by pat_completeness auto
termination
  by (relation "measure (\<lambda>(n, xs). length xs)") auto

section \<open>Sample environments\<close>

text \<open>The year of a date string that starts with four digits, as \<open>getFullYear\<close> gives it
  for an ISO date read in a time zone where the date does not change.\<close>

definition year_prefix :: "jsstring \<Rightarrow> int option" where
  "year_prefix s =
     (if 4 \<le> length s \<and> list_all (\<lambda>c. 48 \<le> c \<and> c \<le> 57) (take 4 s)
      then Some (int (foldl (\<lambda>n c. 10 * n + (c - 48)) 0 (take 4 s)))
      else None)"

text \<open>An environment in which every service is unreachable.\<close>

definition offline :: "nat env" where
  "offline =
     \<lparr> stat_get = (\<lambda>tr. Inl (HttpError ''offline'')),
       prh_get = (\<lambda>tr page. Inl (HttpError ''offline'')),
       deepl_post = (\<lambda>tr text. Inl (HttpError ''offline'')),
       voyage_post = (\<lambda>tr batch. Inl (HttpError ''offline'')),
       sb_upsert = (\<lambda>tr table rows. Some (DbError ''offline'')),
       sb_select = (\<lambda>tr table keys. Inl (DbError ''offline'')),
       read_investors = (\<lambda>tr. Inl (HttpError ''no file'')),
       getFullYear = year_prefix \<rparr>"

text \<open>A visiting address with street, building number, postal code and city, and
  neither entrance nor apartment number.\<close>

definition mannerheimintie :: raw_address where
  "mannerheimintie =
     \<lparr> a_type = Num 1,
       a_street = js ''Mannerheimintie'',
       a_buildingNumber = js ''10'',
       a_entrance = [],
       a_apartmentNumber = [],
       a_postCode = js ''00100'',
       a_postOffices = Some [\<lparr> po_languageCode = Str (js ''1''), po_city = js ''Helsinki'' \<rparr>] \<rparr>"

text \<open>Three records of a listing page: two that pass the filter and one without an
  industry code.\<close>

definition alpha :: raw_company where
  "alpha =
     \<lparr> rc_businessId = Some (BidNested (js ''1234567-8'') (js ''2021-03-15'')),
       rc_registrationDate = [],
       rc_names = Some [\<lparr> n_type = Str (js ''1''), n_endDate = [], n_name = js ''Alpha Oy'' \<rparr>],
       rc_mainBusinessLine = Some \<lparr> bl_type = js ''62010'', bl_descriptions = None \<rparr>,
       rc_addresses = Some [mannerheimintie] \<rparr>"

definition beta :: raw_company where
  "beta =
     \<lparr> rc_businessId = Some (BidFlat (js ''7654321-0'')),
       rc_registrationDate = js ''2022-11-01'',
       rc_names = Some [\<lparr> n_type = Str (js ''1''), n_endDate = [], n_name = js ''Beta Oy'' \<rparr>],
       rc_mainBusinessLine = Some \<lparr> bl_type = js ''99999'', bl_descriptions = None \<rparr>,
       rc_addresses = None \<rparr>"

definition gamma :: raw_company where
  "gamma =
     \<lparr> rc_businessId = Some (BidFlat (js ''1111111-1'')),
       rc_registrationDate = js ''2023-01-01'',
       rc_names = None,
       rc_mainBusinessLine = None,
       rc_addresses = None \<rparr>"

definition sample_items :: "stat_item option list" where
  "sample_items =
     [Some \<lparr> si_code = js ''62010'',
             si_names = Some [\<lparr> in_lang = js ''fi'', in_name = js ''Ohjelmistot'' \<rparr>],
             si_notes = None \<rparr>]"

definition sample_investor :: investor where
  "sample_investor =
     \<lparr> inv_id = js ''investor_01'', inv_name = js ''Aino'', inv_role = js ''Partner'',
       inv_firm = js ''Nordic VC'', inv_location = js ''Turku'',
       inv_preferred_industries = Some [js ''AI'', js ''Health''],
       inv_business_models = None, inv_preferred_rounds = Some [js ''Seed''],
       inv_geo_focus = None, inv_check_size_range = js ''500k'',
       inv_investment_thesis = js ''Early'', inv_avoid_industries = None \<rparr>"

text \<open>An environment in which every service answers: one listing page with the three
  records, an embedding that is the length of the text, a store that accepts every row
  and knows every key it is asked for.\<close>

definition healthy :: "nat env" where
  "healthy =
     \<lparr> stat_get = (\<lambda>tr. Inr (Arr sample_items)),
       prh_get = (\<lambda>tr page. Inr (PArr (if page = 1 then [alpha, beta, gamma] else []))),
       deepl_post = (\<lambda>tr text. Inr (js ''Software'')),
       voyage_post = (\<lambda>tr batch. Inr (map length batch)),
       sb_upsert = (\<lambda>tr table rows. None),
       sb_select = (\<lambda>tr table keys.
          Inr (map (\<lambda>(i, k). \<lparr> ir_id = IdNum (int i + 1), ir_key = key_string k \<rparr>)
                 (enumerate 0 keys))),
       read_investors = (\<lambda>tr. Inr [sample_investor]),
       getFullYear = year_prefix \<rparr>"

text \<open>The healthy environment with an embedding service that refuses every request (and
  a listing of two records); with a listing and a roster that are empty; and a configuration with every variable
  set.\<close>

definition no_embeddings :: "nat env" where
  "no_embeddings =
     healthy \<lparr> voyage_post := (\<lambda>tr batch. Inl (HttpError ''rate limit'')),
               prh_get := (\<lambda>tr page. Inr (PArr (if page = 1 then [beta, gamma] else []))) \<rparr>"

definition empty_source :: "nat env" where
  "empty_source =
     healthy \<lparr> prh_get := (\<lambda>tr page. Inr (PArr [])), read_investors := (\<lambda>tr. Inr []) \<rparr>"

definition sample_config :: config where
  "sample_config =
     \<lparr> SUPABASE_URL = js ''https://db.example'', SUPABASE_ANON_KEY = js ''anon'',
       VOYAGE_API_KEY = js ''key'', BATCH_SIZE_parsed = None \<rparr>"

text \<open>An environment whose classification service fails on the first request of a run
  and answers afterwards.\<close>

definition flaky :: "nat env" where
  "flaky =
     healthy \<lparr> stat_get :=
       (\<lambda>tr. if tr = [] then Inl (HttpError ''timeout'') else Inr (Arr sample_items)) \<rparr>"

text \<open>Two processed companies, the first of which has the business identifier
  \<open>constructor\<close>, and a store whose read-back misses the first key it is asked for.\<close>

definition sample_companies :: "company list" where
  "sample_companies =
     [\<lparr> co_name = js ''Alpha Oy'', co_businessId = KeyStr (js ''constructor''),
         co_industryCode = js ''62010'',
         co_details = \<lparr> d_name = js ''Alpha Oy'', d_description = [], d_address = [],
                        d_registrationDate = Some (js ''2021-03-15''),
                        d_categoryName = js ''Software'' \<rparr> \<rparr>,
      \<lparr> co_name = js ''Beta Oy'', co_businessId = KeyStr (js ''7654321-0''),
         co_industryCode = js ''99999'',
         co_details = \<lparr> d_name = js ''Beta Oy'', d_description = [], d_address = [],
                        d_registrationDate = None,
                        d_categoryName = js ''Industry Code: 99999'' \<rparr> \<rparr>]"

definition forgetful :: "nat env" where
  "forgetful =
     healthy \<lparr> sb_select := (\<lambda>tr table keys.
       Inr (map (\<lambda>(i, k). \<lparr> ir_id = IdNum (int i + 1), ir_key = key_string k \<rparr>)
              (tl (enumerate 0 keys)))) \<rparr>"

text \<open>A roster of two processed investors, the first of which has the given id.\<close>

definition roster_with :: "jsstring \<Rightarrow> processed_investor list" where
  "roster_with key =
     map processInvestorData [sample_investor \<lparr> inv_id := key \<rparr>, sample_investor]"


section \<open>Auxiliary facts\<close>

lemma take_min_drop: "take (min n (length xs - i)) (drop i xs) = take n (drop i xs)"
  by (cases "n \<le> length xs - i") (simp_all add: min_def)

lemma js_slice_nat: "js_slice xs (int i) (int (i + n)) = take n (drop i xs)"
proof (cases "i \<le> length xs")
  case True
  then have "js_slice xs (int i) (int (i + n)) = take (min n (length xs - i)) (drop i xs)"
    by (auto simp: js_slice_def Let_def min_def)
  then show ?thesis by (simp only: take_min_drop)
next
  case False
  then show ?thesis by (simp add: js_slice_def Let_def min_def)
qed

declare chunks_of.simps [simp del]
declare vectorize_loop.simps [simp del]
declare fetch_pages.simps [simp del]

lemma voyage_batches_append [simp]:
  "voyage_batches (xs @ ys) = voyage_batches xs @ voyage_batches ys"
  by (simp add: voyage_batches_def)

lemma voyage_vectors_append [simp]:
  "voyage_vectors (xs @ ys) = voyage_vectors xs @ voyage_vectors ys"
  by (simp add: voyage_vectors_def)

lemma grows_by_refl: "grows_by P tr tr"
  by (simp add: grows_by_def)

lemma grows_by_trans: "grows_by P a b \<Longrightarrow> grows_by P b c \<Longrightarrow> grows_by P a c"
  by (auto simp: grows_by_def)

lemma grows_by_step: "P ev \<Longrightarrow> grows_by P tr (tr @ [ev])"
  by (simp add: grows_by_def)

lemma grows_by_mono: "grows_by P a b \<Longrightarrow> (\<And>ev. P ev \<Longrightarrow> Q ev) \<Longrightarrow> grows_by Q a b"
  by (auto simp: grows_by_def list_all_iff)

lemma translate_grows: "grows_by is_source_event tr (snd (translateToEnglish env text tr))"
  by (auto simp: translateToEnglish_def Let_def grows_by_refl is_source_event_def
      intro!: grows_by_step split: sum.splits jsvalue.splits)

lemma classifications_grows:
  "grows_by is_source_event tr (snd (snd (fetchIndustryClassifications env cache tr)))"
  by (auto simp: fetchIndustryClassifications_def Let_def grows_by_refl is_source_event_def
      intro!: grows_by_step split: option.splits sum.splits prod.splits)

lemma category_grows: "grows_by is_source_event tr (snd (category_name env cls code tr))"
  by (simp add: category_name_def Let_def grows_by_refl translate_grows)

lemma processCompany_grows: "grows_by is_source_event tr (snd (processCompany env cls c tr))"
  using category_grows [of tr env cls "industry_code c"]
  by (auto simp: processCompany_def Let_def split: prod.splits sum.splits)

lemma processCompanies_grows: "grows_by is_source_event tr (snd (processCompanies env cls cs tr))"
proof (induction cs arbitrary: tr)
  case Nil
  show ?case by (simp add: grows_by_refl)
next
  case (Cons c cs)
  obtain p tr1 where p: "processCompany env cls c tr = (p, tr1)" by (cases "processCompany env cls c tr")
  obtain ps tr2 where ps: "processCompanies env cls cs tr1 = (ps, tr2)"
    by (cases "processCompanies env cls cs tr1")
  have g1: "grows_by is_source_event tr tr1" using processCompany_grows [of tr env cls c] p by simp
  moreover have "grows_by is_source_event tr1 tr2" using Cons.IH [of tr1] ps by simp
  ultimately have "grows_by is_source_event tr tr2" by (rule grows_by_trans)
  with g1 show ?case using p ps by (simp split: sum.splits)
qed

lemma fetch_pages_grows:
  "grows_by is_source_event tr (snd (fetch_pages env m acc page tr))"
proof (induction env m acc page tr rule: fetch_pages.induct)
  case (1 env maxResults acc page tr)
  note IH = "1.IH"
  show ?case
  proof (cases "length acc < maxResults")
    case False
    then show ?thesis by (simp add: fetch_pages.simps [of env maxResults acc page tr] grows_by_refl)
  next
    case True
    have ev: "grows_by is_source_event tr (tr @ [PrhGet page (prh_get env tr page)])"
      by (rule grows_by_step) (simp add: is_source_event_def)
    show ?thesis
    proof (cases "prh_get env tr page")
      case (Inl e)
      with True ev show ?thesis by (simp add: fetch_pages.simps [of env maxResults acc page tr])
    next
      case (Inr payload)
      have ev2: "grows_by is_source_event tr (tr @ [PrhGet page (Inr payload)] @ [Sleep 200])"
        by (simp add: grows_by_def is_source_event_def)
      show ?thesis
        using True Inr ev ev2 IH [OF True refl refl Inr refl _ refl refl]
        by (auto simp: fetch_pages.simps [of env maxResults acc page tr] Let_def
            intro: grows_by_trans)
    qed
  qed
qed

lemma fetchCompanies_grows:
  "grows_by is_source_event tr (snd (snd (fetchCompaniesFromAPI env m cache tr)))"
proof -
  obtain cls cache1 tr1 where a: "fetchIndustryClassifications env cache tr = (cls, cache1, tr1)"
    by (cases "fetchIndustryClassifications env cache tr") auto
  obtain r tr2 where b: "fetch_pages env m [] 1 tr1 = (r, tr2)"
    by (cases "fetch_pages env m [] 1 tr1")
  have g1: "grows_by is_source_event tr tr1"
    using classifications_grows [of tr env cache] a by simp
  have g2: "grows_by is_source_event tr1 tr2"
    using fetch_pages_grows [of tr1 env m "[]" 1] b by simp
  have g12: "grows_by is_source_event tr tr2"
    using g1 g2 by (rule grows_by_trans)
  show ?thesis
  proof (cases r)
    case (Inl e)
    with a b g12 show ?thesis by (simp add: fetchCompaniesFromAPI_def)
  next
    case (Inr all)
    obtain ps tr3 where c: "processCompanies env cls (js_slice all 0 (int m)) tr2 = (ps, tr3)"
      by (cases "processCompanies env cls (js_slice all 0 (int m)) tr2")
    have "grows_by is_source_event tr2 tr3"
      using processCompanies_grows [of tr2 env cls "js_slice all 0 (int m)"] c by simp
    with g12 have "grows_by is_source_event tr tr3" by (rule grows_by_trans)
    with a b c Inr g12 show ?thesis
      by (simp add: fetchCompaniesFromAPI_def Let_def split: sum.splits)
  qed
qed

lemma vectorize_loop_fail:
  "vectorize_loop env texts i acc tr = (res, tr') \<Longrightarrow>
   \<exists>evs. tr' = tr @ evs \<and> list_all (\<lambda>ev. \<not> is_store_event ev) evs \<and>
     (case res of
        Inr vs \<Rightarrow> \<not> list_ex failed_embed evs
      | Inl e \<Rightarrow> \<exists>pre b. evs = pre @ [VoyagePost b (Inl e)] \<and> \<not> list_ex failed_embed pre)"
proof (induction env texts i acc tr arbitrary: res tr' rule: vectorize_loop.induct)
  case (1 env texts i allVectors tr)
  note IH = "1.IH"
  note run = "1.prems"
  show ?case
  proof (cases "i < length texts")
    case False
    with run have "res = Inr allVectors" and "tr' = tr"
      by (simp_all add: vectorize_loop.simps [of env texts i])
    then show ?thesis by simp
  next
    case True
    define batch where "batch = js_slice texts (int i) (int (i + batchSize))"
    show ?thesis
    proof (cases "voyage_post env tr batch")
      case (Inl e)
      with True run have "res = Inl e" and "tr' = tr @ [VoyagePost batch (Inl e)]"
        by (auto simp: vectorize_loop.simps [of env texts i] Let_def batch_def)
      then show ?thesis
        by (simp add: is_store_event_def)
    next
      case (Inr b)
      define pre where "pre = (if i + batchSize < length texts
          then [VoyagePost batch (Inr b), Sleep 60000] else [VoyagePost batch (Inr b)])"
      let ?tr2 = "if i + batchSize < length texts
          then (tr @ [VoyagePost batch (Inr b)]) @ [Sleep 60000]
          else tr @ [VoyagePost batch (Inr b)]"
      have tr2: "?tr2 = tr @ pre"
        by (simp add: pre_def)
      have "vectorize_loop env texts i allVectors tr =
          vectorize_loop env texts (i + batchSize) (allVectors @ b) ?tr2"
        by (subst vectorize_loop.simps)
          (simp only: True if_True Let_def batch_def [symmetric] Inr sum.case)
      with run have step: "vectorize_loop env texts (i + batchSize) (allVectors @ b) ?tr2 = (res, tr')"
        by simp
      from IH [OF True batch_def refl refl Inr, unfolded Inr, OF step]
      obtain evs where e1: "tr' = ?tr2 @ evs"
        and e2: "list_all (\<lambda>ev. \<not> is_store_event ev) evs"
        and e3: "case res of
            Inr vs \<Rightarrow> \<not> list_ex failed_embed evs
          | Inl e \<Rightarrow> \<exists>pre b. evs = pre @ [VoyagePost b (Inl e)] \<and> \<not> list_ex failed_embed pre"
        by blast
      have p1: "list_all (\<lambda>ev. \<not> is_store_event ev) pre"
        by (simp add: pre_def is_store_event_def)
      have p2: "\<not> list_ex failed_embed pre"
        by (simp add: pre_def failed_embed_def)
      have A: "tr' = tr @ (pre @ evs)" unfolding e1 by (simp add: pre_def)
      have B: "list_all (\<lambda>ev. \<not> is_store_event ev) (pre @ evs)" using p1 e2 by simp
      have C: "case res of
            Inr vs \<Rightarrow> \<not> list_ex failed_embed (pre @ evs)
          | Inl e \<Rightarrow> \<exists>pre' b. pre @ evs = pre' @ [VoyagePost b (Inl e)] \<and>
                \<not> list_ex failed_embed pre'"
      proof (cases res)
        case (Inr vs)
        with e3 p2 show ?thesis by simp
      next
        case (Inl e)
        with e3 obtain q b' where "evs = q @ [VoyagePost b' (Inl e)]" and "\<not> list_ex failed_embed q"
          by auto
        with p2 have "pre @ evs = (pre @ q) @ [VoyagePost b' (Inl e)] \<and>
            \<not> list_ex failed_embed (pre @ q)" by simp
        with Inl show ?thesis by (simp del: append_assoc)
      qed
      from A B C show ?thesis by blast
    qed
  qed
qed

lemma upsert_batches_grows:
  assumes "upsert_batches env table bsize rows i tr = Some y"
  shows "grows_by is_store_event tr (snd y)"
proof (rule upsert_batches.raw_induct
    [where P = "\<lambda>env table bsize rows i tr y. grows_by is_store_event tr (snd y)", OF _ assms],
    goal_cases)
  case (1 f env table bsize rows i tr y)
  note IH = "1"(1) and body = "1"(2)
  show ?case
  proof (cases "i < int (length rows)")
    case False
    with body show ?thesis by (auto simp: grows_by_refl)
  next
    case True
    define batch where "batch = js_slice rows i (i + bsize)"
    define tr1 where "tr1 = tr @ [Upsert table batch (sb_upsert env tr table batch)]"
    have g: "grows_by is_store_event tr tr1"
      unfolding tr1_def by (rule grows_by_step) (simp add: is_store_event_def)
    show ?thesis
    proof (cases "sb_upsert env tr table batch")
      case (Some e)
      with True body have "y = (Inl e, tr1)"
        by (auto simp: Let_def batch_def tr1_def)
      with g show ?thesis by simp
    next
      case None
      with True body have "f env table bsize rows (i + bsize) tr1 = Some y"
        by (auto simp: Let_def batch_def tr1_def)
      then have "grows_by is_store_event tr1 (snd y)" by (rule IH)
      with g show ?thesis by (rule grows_by_trans)
    qed
  qed
qed

lemma storeInSupabase_grows:
  fixes env :: "'v env"
  assumes "storeInSupabase env bsize companies vectors tr = Some y"
  shows "grows_by is_store_event tr (snd y)"
proof -
  let ?companyData = "map (\<lambda>company. CompanyRow (co_businessId company) (co_name company)
      (co_details company)) companies :: 'v row list"
  let ?r1 = "sb_upsert env tr ''company'' ?companyData"
  let ?tr1 = "tr @ [Upsert ''company'' ?companyData ?r1]"
  let ?keys = "map co_businessId companies"
  let ?r2 = "sb_select env ?tr1 ''company'' ?keys"
  let ?tr2 = "?tr1 @ [Select ''company'' ?keys ?r2]"
  have g1: "grows_by is_store_event tr ?tr1"
    by (rule grows_by_step) (simp add: is_store_event_def)
  have "grows_by is_store_event ?tr1 ?tr2"
    by (rule grows_by_step) (simp add: is_store_event_def)
  with g1 have g2: "grows_by is_store_event tr ?tr2" by (rule grows_by_trans)
  show ?thesis
  proof (cases ?r1)
    case (Some e)
    with assms have "y = (Inl e, ?tr1)"
      by (simp add: storeInSupabase_def Let_def)
    with g1 show ?thesis by simp
  next
    case None
    show ?thesis
    proof (cases ?r2)
      case (Inl e)
      with None assms have "y = (Inl e, ?tr2)"
        by (simp add: storeInSupabase_def Let_def)
      with g2 show ?thesis by simp
    next
      case (Inr records)
      with None assms have "upsert_batches env ''company_embeddings'' bsize
          (embeddingData (id_map records) companies vectors) 0 ?tr2 = Some y"
        by (simp add: storeInSupabase_def Let_def)
      then have "grows_by is_store_event ?tr2 (snd y)" by (rule upsert_batches_grows)
      with g2 show ?thesis by (rule grows_by_trans)
    qed
  qed
qed

lemma storeInSupabase_investor_grows:
  fixes env :: "'v env"
  assumes "storeInSupabase_investor env bsize investors vectors tr = Some y"
  shows "grows_by is_store_event tr (snd y)"
proof -
  let ?investorData = "map (\<lambda>investor. InvestorRow (pi_investor_id investor)
      (pi_details investor)) investors :: 'v row list"
  let ?r1 = "sb_upsert env tr ''investor'' ?investorData"
  let ?tr1 = "tr @ [Upsert ''investor'' ?investorData ?r1]"
  let ?keys = "map (\<lambda>i. KeyStr (pi_investor_id i)) investors"
  let ?r2 = "sb_select env ?tr1 ''investor'' ?keys"
  let ?tr2 = "?tr1 @ [Select ''investor'' ?keys ?r2]"
  have g1: "grows_by is_store_event tr ?tr1"
    by (rule grows_by_step) (simp add: is_store_event_def)
  have "grows_by is_store_event ?tr1 ?tr2"
    by (rule grows_by_step) (simp add: is_store_event_def)
  with g1 have g2: "grows_by is_store_event tr ?tr2" by (rule grows_by_trans)
  show ?thesis
  proof (cases ?r1)
    case (Some e)
    with assms have "y = (Inl e, ?tr1)"
      by (simp add: storeInSupabase_investor_def Let_def)
    with g1 show ?thesis by simp
  next
    case None
    show ?thesis
    proof (cases ?r2)
      case (Inl e)
      with None assms have "y = (Inl e, ?tr2)"
        by (simp add: storeInSupabase_investor_def Let_def)
      with g2 show ?thesis by simp
    next
      case (Inr records)
      with None assms have "upsert_batches env ''investor_embeddings'' bsize
          (embeddingData_investor (id_map records) investors vectors) 0 ?tr2 = Some y"
        by (simp add: storeInSupabase_investor_def Let_def)
      then have "grows_by is_store_event ?tr2 (snd y)" by (rule upsert_batches_grows)
      with g2 show ?thesis by (rule grows_by_trans)
    qed
  qed
qed

lemma source_event_kinds:
  "is_source_event ev \<Longrightarrow> \<not> is_embed_event ev \<and> \<not> is_store_event ev \<and> \<not> failed_embed ev"
  by (cases ev) (simp_all add: is_source_event_def is_embed_event_def is_store_event_def failed_embed_def)

lemma store_event_kinds:
  "is_store_event ev \<Longrightarrow> \<not> is_embed_event ev \<and> \<not> failed_embed ev"
  by (cases ev) (simp_all add: is_embed_event_def is_store_event_def failed_embed_def)

lemma failed_embed_iff: "failed_embed ev \<longleftrightarrow> (\<exists>b e. ev = VoyagePost b (Inl e))"
  by (cases ev) (auto simp: failed_embed_def split: sum.splits)

lemma vectorize_fail:
  assumes run: "vectorizeWithVoyage env texts tr = (res, tr')"
    and mem: "VoyagePost b (Inl e) \<in> set (drop (length tr) tr')"
  shows "res = Inl e \<and> (\<exists>pre. tr' = tr @ pre @ [VoyagePost b (Inl e)] \<and>
           \<not> list_ex failed_embed pre \<and> list_all (\<lambda>ev. \<not> is_store_event ev) pre)"
proof -
  from run have "vectorize_loop env texts 0 [] tr = (res, tr')"
    by (simp add: vectorizeWithVoyage_def)
  from vectorize_loop_fail [OF this]
  obtain evs where e1: "tr' = tr @ evs"
    and e2: "list_all (\<lambda>ev. \<not> is_store_event ev) evs"
    and e3: "case res of
        Inr vs \<Rightarrow> \<not> list_ex failed_embed evs
      | Inl e \<Rightarrow> \<exists>pre b. evs = pre @ [VoyagePost b (Inl e)] \<and> \<not> list_ex failed_embed pre"
    by blast
  from mem e1 have m: "VoyagePost b (Inl e) \<in> set evs" by simp
  then have ex: "list_ex failed_embed evs"
    by (auto simp: list_ex_iff failed_embed_iff)
  show ?thesis
  proof (cases res)
    case (Inr vs)
    with e3 ex show ?thesis by simp
  next
    case (Inl e')
    with e3 obtain pre b' where p: "evs = pre @ [VoyagePost b' (Inl e')]"
      and np: "\<not> list_ex failed_embed pre" by auto
    from m p np have "VoyagePost b (Inl e) = VoyagePost b' (Inl e')"
      by (auto simp: list_ex_iff failed_embed_iff)
    then have "b' = b" and "e' = e" by simp_all
    with Inl p np e1 e2 show ?thesis by auto
  qed
qed

text \<open>What a pipeline does after its source adapter has produced its input.\<close>

lemma after_source_fail:
  fixes tr1 :: "'v trace"
  assumes src: "list_all is_source_event t1"
    and vec: "vectorizeWithVoyage env texts t1 = (vr, t2)"
    and fin: "(case vr of
          Inl e \<Rightarrow> Some (1, t2)
        | Inr vectors \<Rightarrow>
            (case store vectors t2 of
               None \<Rightarrow> None
             | Some (Inl e, tr3) \<Rightarrow> Some (1, tr3)
             | Some (Inr u, tr3) \<Rightarrow> Some (0, tr3))) = Some (code :: nat, tr1)"
    and st: "\<And>vectors y. store vectors t2 = Some y \<Longrightarrow> grows_by is_store_event t2 (snd y)"
    and mem: "VoyagePost b (Inl e) \<in> set tr1"
  shows "code = 1 \<and> last tr1 = VoyagePost b (Inl e) \<and> \<not> list_ex is_store_event tr1"
proof -
  have vl: "vectorize_loop env texts 0 [] t1 = (vr, t2)"
    using vec by (simp add: vectorizeWithVoyage_def)
  from vectorize_loop_fail [OF vl]
  obtain evs where e1: "t2 = t1 @ evs"
    and e2: "list_all (\<lambda>ev. \<not> is_store_event ev) evs"
    and e3: "case vr of
        Inr vs \<Rightarrow> \<not> list_ex failed_embed evs
      | Inl e \<Rightarrow> \<exists>pre b. evs = pre @ [VoyagePost b (Inl e)] \<and> \<not> list_ex failed_embed pre"
    by blast
  have not_src: "VoyagePost b (Inl e) \<notin> set t1"
    using src by (auto simp: list_all_iff is_source_event_def)
  have src_ns: "\<not> list_ex is_store_event t1"
    using src by (auto simp: list_all_iff list_ex_iff dest: source_event_kinds)
  show ?thesis
  proof (cases vr)
    case (Inl e')
    with fin have c: "code = 1" and t: "tr1 = t2" by simp_all
    from mem t e1 not_src have "VoyagePost b (Inl e) \<in> set (drop (length t1) t2)" by simp
    from vectorize_fail [OF vec this]
    obtain pre where "t2 = t1 @ pre @ [VoyagePost b (Inl e)]" by blast
    then have "last t2 = VoyagePost b (Inl e)" by simp
    moreover have "\<not> list_ex is_store_event t2"
      using src_ns e2 e1 by (auto simp: list_all_iff list_ex_iff)
    ultimately show ?thesis using c t by simp
  next
    case (Inr vectors)
    with e3 have nf: "\<not> list_ex failed_embed evs" by simp
    from Inr fin obtain y where y: "store vectors t2 = Some y" and t: "tr1 = snd y"
      by (auto split: option.splits prod.splits sum.splits)
    from st [OF y] obtain evs2 where "snd y = t2 @ evs2" and "list_all is_store_event evs2"
      by (auto simp: grows_by_def)
    with t e1 have "tr1 = t1 @ evs @ evs2" by simp
    with mem not_src nf have "VoyagePost b (Inl e) \<in> set evs2"
      by (auto simp: list_ex_iff failed_embed_iff)
    with \<open>list_all is_store_event evs2\<close> have False
      by (auto simp: list_all_iff is_store_event_def)
    then show ?thesis ..
  qed
qed

lemma main_fail:
  assumes run: "main env cfg = Some (code, tr1)"
    and mem: "VoyagePost b (Inl e) \<in> set tr1"
  shows "code = 1 \<and> last tr1 = VoyagePost b (Inl e) \<and> \<not> list_ex is_store_event tr1"
proof -
  obtain r cache t1 where f: "fetchCompaniesFromAPI env 500 None [] = (r, cache, t1)"
    by (cases "fetchCompaniesFromAPI env 500 None []") auto
  have "grows_by is_source_event [] t1"
    using fetchCompanies_grows [of "[]" env 500 None] f by simp
  then have src: "list_all is_source_event t1" by (simp add: grows_by_def)
  then have not_src: "VoyagePost b (Inl e) \<notin> set t1"
    by (auto simp: list_all_iff is_source_event_def)
  have ne: "\<not> missing_env cfg" using run mem by (auto simp: main_def)
  show ?thesis
  proof (cases r)
    case (Inl e')
    with run f ne have "tr1 = t1" by (simp add: main_def)
    with mem not_src show ?thesis by simp
  next
    case (Inr companies)
    show ?thesis
    proof (cases "length companies = 0")
      case True
      with run f ne Inr have "tr1 = t1" by (simp add: main_def)
      with mem not_src show ?thesis by simp
    next
      case False
      obtain vr t2 where v: "vectorizeWithVoyage env (map createCompanyText companies) t1 = (vr, t2)"
        by (cases "vectorizeWithVoyage env (map createCompanyText companies) t1")
      from run f ne Inr False v
      have fin: "(case vr of
          Inl e \<Rightarrow> Some (1, t2)
        | Inr vectors \<Rightarrow>
            (case storeInSupabase env (BATCH_SIZE cfg) companies vectors t2 of
               None \<Rightarrow> None
             | Some (Inl e, tr3) \<Rightarrow> Some (1, tr3)
             | Some (Inr u, tr3) \<Rightarrow> Some (0, tr3))) = Some (code, tr1)"
        by (simp add: main_def Let_def)
      show ?thesis
        by (rule after_source_fail
            [where store = "storeInSupabase env (BATCH_SIZE cfg) companies", OF src v fin _ mem])
          (rule storeInSupabase_grows)
    qed
  qed
qed

lemma main_investor_fail:
  assumes run: "main_investor env cfg = Some (code, tr1)"
    and mem: "VoyagePost b (Inl e) \<in> set tr1"
  shows "code = 1 \<and> last tr1 = VoyagePost b (Inl e) \<and> \<not> list_ex is_store_event tr1"
proof -
  let ?t1 = "[ReadInvestors (read_investors env [])]"
  have src: "list_all is_source_event ?t1" by (simp add: is_source_event_def)
  have not_src: "VoyagePost b (Inl e) \<notin> set ?t1" by simp
  have ne: "\<not> missing_env cfg" using run mem by (auto simp: main_investor_def)
  show ?thesis
  proof (cases "read_investors env []")
    case (Inl e')
    with run ne have "tr1 = ?t1" by (simp add: main_investor_def loadInvestorsFromJSON_def)
    with mem not_src show ?thesis by simp
  next
    case (Inr rawInvestors)
    show ?thesis
    proof (cases "length rawInvestors = 0")
      case True
      with run ne Inr have "tr1 = ?t1" by (simp add: main_investor_def loadInvestorsFromJSON_def)
      with mem not_src show ?thesis by simp
    next
      case False
      obtain vr t2 where v: "vectorizeWithVoyage env (map createInvestorText rawInvestors) ?t1 = (vr, t2)"
        by (cases "vectorizeWithVoyage env (map createInvestorText rawInvestors) ?t1")
      from run ne Inr False v
      have fin: "(case vr of
          Inl e \<Rightarrow> Some (1, t2)
        | Inr vectors \<Rightarrow>
            (case storeInSupabase_investor env (BATCH_SIZE cfg)
                    (map processInvestorData rawInvestors) vectors t2 of
               None \<Rightarrow> None
             | Some (Inl e, tr3) \<Rightarrow> Some (1, tr3)
             | Some (Inr u, tr3) \<Rightarrow> Some (0, tr3))) = Some (code, tr1)"
        by (simp add: main_investor_def loadInvestorsFromJSON_def Let_def)
      show ?thesis
        by (rule after_source_fail
            [where store = "storeInSupabase_investor env (BATCH_SIZE cfg)
               (map processInvestorData rawInvestors)", OF src v fin _ mem])
          (rule storeInSupabase_investor_grows)
    qed
  qed
qed

lemma fetch_times_cached: "fetch_times env n (Some c) tr = (replicate n c, Some c, tr)"
  by (induction n) (simp_all add: fetchIndustryClassifications_def)

lemma page_events_append [simp]: "page_events (xs @ ys) = page_events xs @ page_events ys"
  by (simp add: page_events_def)

lemma page_events_Nil [simp]: "page_events [] = []"
  by (simp add: page_events_def)

lemma accumulated_Cons:
  "accumulated env ((p, r) # ps) = filter (validCompany env) (listed r) @ accumulated env ps"
  by (simp add: accumulated_def)

lemma accumulated_Nil [simp]: "accumulated env [] = []"
  by (simp add: accumulated_def)

lemma fetch_pages_run:
  fixes tr :: "'v trace"
  shows "fetch_pages env m acc page tr = (res, tr') \<Longrightarrow> page \<le> 50 \<Longrightarrow>
   \<exists>evs. tr' = tr @ evs \<and>
     paged env m (length acc) page (page_events evs) \<and>
     (\<forall>all. res = Inr all \<longrightarrow> all = acc @ accumulated env (page_events evs)) \<and>
     (\<forall>e. res = Inl e \<longrightarrow> page_events evs \<noteq> [] \<and> snd (last (page_events evs)) = Inl e)"
proof (induction env m acc page tr arbitrary: res tr' rule: fetch_pages.induct)
  case (1 env maxResults acc page tr)
  note IH = "1.IH" and run = "1.prems"(1) and page = "1.prems"(2)
  show ?case
  proof (cases "length acc < maxResults")
    case False
    with run have "res = Inr acc" and "tr' = tr"
      by (auto simp: fetch_pages.simps [of env maxResults acc page tr])
    with False show ?thesis by simp
  next
    case True
    let ?r = "prh_get env tr page"
    let ?ev = "PrhGet page ?r :: 'v event"
    have pe: "page_events [?ev] = [(page, ?r)]" by (simp add: page_events_def)
    show ?thesis
    proof (cases ?r)
      case (Inl e)
      with True run have "res = Inl e" and "tr' = tr @ [?ev]"
        by (auto simp: fetch_pages.simps [of env maxResults acc page tr])
      with True page Inl pe show ?thesis
        by (intro exI [of _ "[?ev]"]) (simp add: accumulated_Cons listed_def Let_def)
    next
      case (Inr payload)
      let ?pd = "page_data payload"
      let ?valid = "filter (validCompany env) ?pd"
      let ?acc' = "acc @ ?valid"
      have li: "listed ?r = ?pd" using Inr by (simp add: listed_def)
      show ?thesis
      proof (cases "length ?pd = 0 \<or> maxResults \<le> length ?acc' \<or> length ?pd < resultsPerPage
          \<or> 50 < page + 1")
        case stop: True
        with True Inr run have "res = Inr ?acc'" and "tr' = tr @ [?ev]"
          by (auto simp: fetch_pages.simps [of env maxResults acc page tr] Let_def
              split: if_splits)
        moreover have "paged env maxResults (length acc) page [(page, ?r)]"
          using True page stop Inr li by (auto simp: Let_def resultsPerPage_def)
        ultimately show ?thesis
          using pe li by (intro exI [of _ "[?ev]"]) (simp add: accumulated_Cons)
      next
        case go: False
        let ?tr2 = "(tr @ [?ev]) @ [Sleep 200]"
        have step: "fetch_pages env maxResults ?acc' (page + 1) ?tr2 = (res, tr')"
          using True Inr run go
          by (simp add: fetch_pages.simps [of env maxResults acc page tr] Let_def)
        have p1: "page + 1 \<le> 50" using go by simp
        from go have g1: "length ?pd \<noteq> 0" and g2: "\<not> maxResults \<le> length ?acc'"
          and g3: "\<not> length ?pd < resultsPerPage" and g4: "\<not> 50 < page + 1" by simp_all
        from IH [OF True refl refl Inr refl g1 refl refl g2 g3 g4 step p1]
        obtain evs where e1: "tr' = ?tr2 @ evs"
          and e2: "paged env maxResults (length ?acc') (page + 1) (page_events evs)"
          and e3: "\<forall>all. res = Inr all \<longrightarrow> all = ?acc' @ accumulated env (page_events evs)"
          and e4: "\<forall>e. res = Inl e \<longrightarrow> page_events evs \<noteq> [] \<and>
              snd (last (page_events evs)) = Inl e"
          by blast
        have ne: "page_events evs \<noteq> []"
          using e2 g2 by (cases "page_events evs") auto
        let ?evs = "[?ev, Sleep 200] @ evs"
        have pes: "page_events ?evs = (page, ?r) # page_events evs"
          by (simp add: page_events_def)
        have A: "tr' = tr @ ?evs" using e1 by simp
        have B: "paged env maxResults (length acc) page (page_events ?evs)"
          unfolding pes using True page go e2 Inr li ne
          by (auto simp: Let_def)
        have C: "\<forall>all. res = Inr all \<longrightarrow> all = acc @ accumulated env (page_events ?evs)"
          unfolding pes using e3 li by (simp add: accumulated_Cons)
        have D: "\<forall>e. res = Inl e \<longrightarrow> page_events ?evs \<noteq> [] \<and>
            snd (last (page_events ?evs)) = Inl e"
          unfolding pes using e4 ne by simp
        from A B C D show ?thesis by blast
      qed
    qed
  qed
qed

lemma paged_Cons:
  "paged env m n page ((p, r) # rest) \<Longrightarrow>
   n < m \<and> p = page \<and> page \<le> 50 \<and>
   (rest \<noteq> [] \<longrightarrow>
      page < 50 \<and> resultsPerPage \<le> length (listed r) \<and>
      n + length (filter (validCompany env) (listed r)) < m \<and>
      paged env m (n + length (filter (validCompany env) (listed r))) (page + 1) rest) \<and>
   (rest = [] \<longrightarrow>
      (\<exists>e. r = Inl e) \<or> m \<le> n + length (filter (validCompany env) (listed r)) \<or>
      length (listed r) < resultsPerPage \<or> page = 50)"
  by (cases r; cases rest) (auto simp: Let_def split: if_splits)

lemma paged_pages: "paged env m n page ps \<Longrightarrow> map fst ps = [page..<page + length ps]"
proof (induction ps arbitrary: n page)
  case Nil
  show ?case by simp
next
  case (Cons x rest)
  obtain p r where x: "x = (p, r)" by (cases x)
  note c = paged_Cons [OF Cons.prems [unfolded x]]
  show ?case
  proof (cases "rest = []")
    case True
    with c x show ?thesis by (simp add: upt_rec)
  next
    case False
    with c have "paged env m (n + length (filter (validCompany env) (listed r))) (page + 1) rest"
      by simp
    from Cons.IH [OF this] c x show ?thesis by (simp add: upt_rec)
  qed
qed

lemma paged_ceiling: "paged env m n page ps \<Longrightarrow> ps \<noteq> [] \<Longrightarrow> page + length ps \<le> 51"
proof (induction ps arbitrary: n page)
  case Nil
  then show ?case by simp
next
  case (Cons x rest)
  obtain p r where x: "x = (p, r)" by (cases x)
  note c = paged_Cons [OF Cons.prems(1) [unfolded x]]
  show ?case
  proof (cases "rest = []")
    case True
    with c show ?thesis by simp
  next
    case False
    with c have "paged env m (n + length (filter (validCompany env) (listed r))) (page + 1) rest"
      by simp
    from Cons.IH [OF this False] show ?thesis by simp
  qed
qed

lemma paged_below_target:
  "paged env m n page ps \<Longrightarrow> j < length ps \<Longrightarrow> n + length (accumulated env (take j ps)) < m"
proof (induction ps arbitrary: n page j)
  case Nil
  then show ?case by simp
next
  case (Cons x rest)
  obtain p r where x: "x = (p, r)" by (cases x)
  note c = paged_Cons [OF Cons.prems(1) [unfolded x]]
  show ?case
  proof (cases j)
    case 0
    with c show ?thesis by simp
  next
    case (Suc k)
    with Cons.prems(2) have k: "k < length rest" by simp
    then have "rest \<noteq> []" by auto
    with c have "paged env m (n + length (filter (validCompany env) (listed r))) (page + 1) rest"
      by simp
    from Cons.IH [OF this k] show ?thesis
      by (simp add: Suc x accumulated_Cons)
  qed
qed

lemma paged_full:
  "paged env m n page ps \<Longrightarrow> Suc j < length ps \<Longrightarrow>
   resultsPerPage \<le> length (listed (snd (ps ! j)))"
proof (induction ps arbitrary: n page j)
  case Nil
  then show ?case by simp
next
  case (Cons x rest)
  obtain p r where x: "x = (p, r)" by (cases x)
  note c = paged_Cons [OF Cons.prems(1) [unfolded x]]
  from Cons.prems(2) have ne: "rest \<noteq> []" by auto
  show ?case
  proof (cases j)
    case 0
    with c ne x show ?thesis by simp
  next
    case (Suc k)
    with Cons.prems(2) have k: "Suc k < length rest" by simp
    from c ne have "paged env m (n + length (filter (validCompany env) (listed r))) (page + 1) rest"
      by simp
    from Cons.IH [OF this k] show ?thesis
      by (simp add: Suc)
  qed
qed

lemma paged_stop:
  "paged env m n page ps \<Longrightarrow>
   (ps = [] \<longrightarrow> m \<le> n) \<and>
   (ps \<noteq> [] \<longrightarrow>
      (\<exists>e. snd (last ps) = Inl e) \<or> m \<le> n + length (accumulated env ps) \<or>
      length (listed (snd (last ps))) < resultsPerPage \<or> page + length ps = 51)"
proof (induction ps arbitrary: n page)
  case Nil
  then show ?case by simp
next
  case (Cons x rest)
  obtain p r where x: "x = (p, r)" by (cases x)
  note c = paged_Cons [OF Cons.prems(1) [unfolded x]]
  show ?case
  proof (cases "rest = []")
    case True
    with c x show ?thesis by (auto simp: accumulated_Cons)
  next
    case False
    with c have "paged env m (n + length (filter (validCompany env) (listed r))) (page + 1) rest"
      by simp
    from Cons.IH [OF this] False x show ?thesis
      by (auto simp: accumulated_Cons)
  qed
qed

lemma aux_no_pages: "list_all is_aux_event evs \<Longrightarrow> page_events evs = []"
  by (induction evs) (auto simp: page_events_def is_aux_event_def split: event.splits)

lemma translate_aux: "grows_by is_aux_event tr (snd (translateToEnglish env text tr))"
  by (auto simp: translateToEnglish_def Let_def grows_by_refl is_aux_event_def
      intro!: grows_by_step split: sum.splits jsvalue.splits)

lemma classifications_aux:
  "grows_by is_aux_event tr (snd (snd (fetchIndustryClassifications env cache tr)))"
  by (auto simp: fetchIndustryClassifications_def Let_def grows_by_refl is_aux_event_def
      intro!: grows_by_step split: option.splits sum.splits prod.splits)

lemma category_aux: "grows_by is_aux_event tr (snd (category_name env cls code tr))"
  by (simp add: category_name_def Let_def grows_by_refl translate_aux)

lemma processCompany_aux: "grows_by is_aux_event tr (snd (processCompany env cls c tr))"
  using category_aux [of tr env cls "industry_code c"]
  by (auto simp: processCompany_def Let_def split: prod.splits sum.splits)

lemma processCompany_fields:
  "fst (processCompany env cls c tr) = Inr p \<Longrightarrow>
   co_businessId p = extract_businessId c \<and> co_industryCode p = industry_code c"
  by (auto simp: processCompany_def Let_def split: prod.splits sum.splits)

lemma processCompanies_run:
  "\<exists>evs. snd (processCompanies env cls cs tr) = tr @ evs \<and> list_all is_aux_event evs \<and>
     (\<forall>ps. fst (processCompanies env cls cs tr) = Inr ps \<longrightarrow>
        list_all2 (\<lambda>raw c. (\<exists>cls t. fst (processCompany env cls raw t) = Inr c) \<and>
            co_businessId c = extract_businessId raw \<and> co_industryCode c = industry_code raw)
          cs ps)"
proof (induction cs arbitrary: tr)
  case Nil
  show ?case by simp
next
  case (Cons c cs)
  let ?R = "\<lambda>raw c. (\<exists>cls t. fst (processCompany env cls raw t) = Inr c) \<and>
            co_businessId c = extract_businessId raw \<and> co_industryCode c = industry_code raw"
  obtain r tr1 where p: "processCompany env cls c tr = (r, tr1)"
    by (cases "processCompany env cls c tr")
  from processCompany_aux [of tr env cls c] p obtain e1 where e1: "tr1 = tr @ e1"
    and a1: "list_all is_aux_event e1" by (auto simp: grows_by_def)
  show ?case
  proof (cases r)
    case (Inl e)
    with p e1 a1 show ?thesis by (intro exI [of _ e1]) simp
  next
    case (Inr q)
    obtain rs tr2 where ps: "processCompanies env cls cs tr1 = (rs, tr2)"
      by (cases "processCompanies env cls cs tr1")
    from Cons.IH [of tr1] ps obtain e2 where e2: "tr2 = tr1 @ e2"
      and a2: "list_all is_aux_event e2"
      and l2: "\<forall>ps. rs = Inr ps \<longrightarrow> list_all2 ?R cs ps"
      by auto
    have hd: "?R c q"
      using p Inr processCompany_fields [of env cls c tr q] by (metis fst_conv)
    have "snd (processCompanies env cls (c # cs) tr) = tr @ (e1 @ e2)"
      using p Inr ps e1 e2 by (simp split: sum.splits)
    moreover have "list_all is_aux_event (e1 @ e2)" using a1 a2 by simp
    moreover have "\<forall>ps. fst (processCompanies env cls (c # cs) tr) = Inr ps \<longrightarrow>
        list_all2 ?R (c # cs) ps"
      using p Inr ps hd l2 by (auto split: sum.splits)
    ultimately show ?thesis by blast
  qed
qed

lemma js_slice_take: "js_slice xs 0 (int m) = take m xs"
  using js_slice_nat [of xs 0 m] by simp

lemma validCompany_iff:
  "validCompany env c \<longleftrightarrow>
     reg_date c \<noteq> [] \<and> (\<exists>y. getFullYear env (reg_date c) = Some y \<and> 2020 \<le> y) \<and>
     industry_code c \<noteq> []"
  by (auto simp: validCompany_def Let_def split: option.splits)

lemma fetchCompanies_run:
  fixes tr :: "'v trace"
  assumes run: "fetchCompaniesFromAPI env m cache tr = (res, cache', tr')"
  shows "\<exists>evs. tr' = tr @ evs \<and> paged env m 0 1 (page_events evs) \<and>
     (\<forall>cs. res = Inr cs \<longrightarrow>
        list_all2 (\<lambda>raw c. (\<exists>cls t. fst (processCompany env cls raw t) = Inr c) \<and>
            co_businessId c = extract_businessId raw \<and> co_industryCode c = industry_code raw)
          (take m (accumulated env (page_events evs))) cs)"
proof -
  obtain cls cache1 tr1 where a: "fetchIndustryClassifications env cache tr = (cls, cache1, tr1)"
    by (cases "fetchIndustryClassifications env cache tr") auto
  obtain r tr2 where b: "fetch_pages env m [] 1 tr1 = (r, tr2)"
    by (cases "fetch_pages env m [] 1 tr1")
  from classifications_aux [of tr env cache] a obtain e0 where e0: "tr1 = tr @ e0"
    and a0: "list_all is_aux_event e0" by (auto simp: grows_by_def)
  from fetch_pages_run [OF b] obtain ep where ep: "tr2 = tr1 @ ep"
    and pg: "paged env m (length ([] :: raw_company list)) 1 (page_events ep)"
    and ok: "\<forall>all. r = Inr all \<longrightarrow> all = [] @ accumulated env (page_events ep)"
    by auto
  have P0: "page_events (e0 @ ep) = page_events ep"
    using aux_no_pages [OF a0] by simp
  show ?thesis
  proof (cases r)
    case (Inl e)
    with run a b have "res = Inl e" and "tr' = tr2" by (simp_all add: fetchCompaniesFromAPI_def)
    with e0 ep pg Inl P0 show ?thesis
      by (intro exI [of _ "e0 @ ep"]) simp
  next
    case (Inr all)
    with ok have all: "all = accumulated env (page_events ep)" by simp
    show ?thesis
    proof (cases "length all = 0")
      case True
      with run a b Inr have "res = Inr []" and "tr' = tr2"
        by (simp_all add: fetchCompaniesFromAPI_def)
      with e0 ep pg P0 True all show ?thesis
        by (intro exI [of _ "e0 @ ep"]) simp
    next
      case False
      obtain ps tr3 where c: "processCompanies env cls (take m all) tr2 = (ps, tr3)"
        by (cases "processCompanies env cls (take m all) tr2")
      from run a b Inr False c have res: "res = ps" and tr': "tr' = tr3"
        by (simp_all add: fetchCompaniesFromAPI_def Let_def js_slice_take split: sum.splits)
      from processCompanies_run [of env cls "take m all" tr2] c
      obtain e3 where e3: "tr3 = tr2 @ e3" and a3: "list_all is_aux_event e3"
        and l: "\<forall>cs. ps = Inr cs \<longrightarrow>
          list_all2 (\<lambda>raw c. (\<exists>cls t. fst (processCompany env cls raw t) = Inr c) \<and>
            co_businessId c = extract_businessId raw \<and> co_industryCode c = industry_code raw)
          (take m all) cs"
        by auto
      have P: "page_events (e0 @ ep @ e3) = page_events ep"
        using aux_no_pages [OF a0] aux_no_pages [OF a3] by simp
      have "tr' = tr @ (e0 @ ep @ e3)" using tr' e3 ep e0 by simp
      with res pg l all P show ?thesis
        by (intro exI [of _ "e0 @ ep @ e3"]) simp
    qed
  qed
qed

section \<open>Translator: properties\<close>

lemma translations_nonempty: "map_of translations_map k = Some t \<Longrightarrow> t \<noteq> []"
proof -
  have "\<forall>(k, t) \<in> set translations_map. t \<noteq> []"
    by (simp add: translations_map_def js_def)
  moreover assume "map_of translations_map k = Some t"
  ultimately show ?thesis
    by (auto dest: map_of_SomeD)
qed

lemma translateFinnishToEnglishBasic_entry:
  "text \<notin> set inherited_names \<Longrightarrow>
   translateFinnishToEnglishBasic text =
     Val (case map_of translations_map text of None \<Rightarrow> text | Some t \<Rightarrow> t)"
  by (auto simp: translateFinnishToEnglishBasic_def js_get_def dest: translations_nonempty
      split: option.splits)

text \<open>
  Claim C6.  \<open>translateToEnglish\<close> returns its input and leaves the trace as it was (no
  request to the translation service) whenever the input is empty, or has none of the
  six Finnish letters and consists only of ASCII letters, white space, commas (44),
  full stops (46) and hyphens (45).  In particular the empty string and
  \<open>Manufacturing\<close> come back unchanged, without a request.
\<close>

theorem translate_passthrough:
  "((text = [] \<or>
      (\<not> (\<exists>c \<in> set text. c \<in> {228, 246, 229, 196, 214, 197}) \<and>
       (\<forall>c \<in> set text. is_ascii_letter c \<or> is_space c \<or> c = 44 \<or> c = 46 \<or> c = 45)))
     \<longrightarrow> translateToEnglish env text tr = (Inr text, tr)) \<and>
   translateToEnglish env (js '''') tr = (Inr (js ''''), tr) \<and>
   translateToEnglish env (js ''Manufacturing'') tr = (Inr (js ''Manufacturing''), tr)"
proof (intro conjI impI)
  assume h: "text = [] \<or>
      (\<not> (\<exists>c \<in> set text. c \<in> {228, 246, 229, 196, 214, 197}) \<and>
       (\<forall>c \<in> set text. is_ascii_letter c \<or> is_space c \<or> c = 44 \<or> c = 46 \<or> c = 45))"
  show "translateToEnglish env text tr = (Inr text, tr)"
  proof (cases "text = []")
    case True
    then show ?thesis by (simp add: translateToEnglish_def)
  next
    case False
    with h have "\<not> finnishChars text" and "plain_ascii text"
      by (auto simp: finnishChars_def plain_ascii_def plain_char_def list_all_iff)
    then show ?thesis by (simp add: translateToEnglish_def)
  qed
next
  show "translateToEnglish env (js '''') tr = (Inr (js ''''), tr)"
    by (simp add: translateToEnglish_def js_def)
next
  have "\<not> finnishChars (js ''Manufacturing'')"
    by (simp add: finnishChars_def js_def)
  moreover have "plain_ascii (js ''Manufacturing'')"
    by (simp add: plain_ascii_def plain_char_def is_ascii_letter_def js_def)
  ultimately show
    "translateToEnglish env (js ''Manufacturing'') tr = (Inr (js ''Manufacturing''), tr)"
    by (simp add: translateToEnglish_def)
qed

theorem translate_passthrough_witness:
  "translateToEnglish offline (js ''Real estate activities'') [] =
     (Inr (js ''Real estate activities''), [])"
proof -
  have "\<not> (\<exists>c \<in> set (js ''Real estate activities''). c \<in> {228, 246, 229, 196, 214, 197::nat})"
    by (simp add: js_def)
  moreover have "\<forall>c \<in> set (js ''Real estate activities'').
      is_ascii_letter c \<or> is_space c \<or> c = 44 \<or> c = 46 \<or> c = 45"
    by (simp add: js_def is_ascii_letter_def is_space_def)
  ultimately show ?thesis
    using translate_passthrough [of "js ''Real estate activities''" offline "[]"] by blast
qed

text \<open>
  Claim C7, as stated, fails: under a failing translation service the input
  \<open>Teollisuus\<close>, which has the entry \<open>Manufacturing\<close> in the fallback table, comes back
  as it is.  It consists of ASCII letters only, so the function returns before the
  request and before the table.
\<close>

theorem translate_fallback_counterexample:
  "deepl_post offline [] (js ''Teollisuus'') = Inl (HttpError ''offline'') \<and>
   map_of translations_map (js ''Teollisuus'') = Some (js ''Manufacturing'') \<and>
   translateToEnglish offline (js ''Teollisuus'') [] = (Inr (js ''Teollisuus''), []) \<and>
   fst (translateToEnglish offline (js ''Teollisuus'') []) \<noteq> Inr (js ''Manufacturing'')"
proof -
  have a: "deepl_post offline [] (js ''Teollisuus'') = Inl (HttpError ''offline'')"
    by (simp add: offline_def)
  have b: "map_of translations_map (js ''Teollisuus'') = Some (js ''Manufacturing'')"
    by (simp add: translations_map_def js_def)
  have "\<not> finnishChars (js ''Teollisuus'')"
    by (simp add: finnishChars_def js_def)
  moreover have "plain_ascii (js ''Teollisuus'')"
    by (simp add: plain_ascii_def plain_char_def is_ascii_letter_def js_def)
  ultimately have c:
    "translateToEnglish offline (js ''Teollisuus'') [] = (Inr (js ''Teollisuus''), [])"
    by (simp add: translateToEnglish_def)
  have d: "js ''Teollisuus'' \<noteq> js ''Manufacturing''"
    by (simp add: js_def)
  from a b c d show ?thesis by simp
qed

text \<open>
  Claim C7, amended.  For every input on which \<open>translateToEnglish\<close> makes the request
  (the input is not empty, and it has a Finnish letter or does not match the
  plain-ASCII pattern) and that is not the name of a member of \<open>Object.prototype\<close>:
  when the request fails, the function makes that one request and returns, as a
  result and not as an error, the entry of the fallback table for the exact input when
  there is one, and the input itself otherwise.  With the service failing, the input
  \<open>S\<close>, 228, \<open>hk\<close>, 246, \<open>asennus\<close> gives \<open>Electrical installation\<close>.
\<close>

theorem translate_fallback:
  "(text \<noteq> [] \<and> (finnishChars text \<or> \<not> plain_ascii text) \<and>
    text \<notin> set inherited_names \<and> deepl_post env tr text = Inl e
     \<longrightarrow> translateToEnglish env text tr =
          (Inr (case map_of translations_map text of None \<Rightarrow> text | Some t \<Rightarrow> t),
           tr @ [DeeplPost text (Inl e)])) \<and>
   (deepl_post env tr (js ''S'' @ [228] @ js ''hk'' @ [246] @ js ''asennus'') = Inl e
     \<longrightarrow> fst (translateToEnglish env (js ''S'' @ [228] @ js ''hk'' @ [246] @ js ''asennus'') tr) =
          Inr (js ''Electrical installation''))"
proof (intro conjI impI)
  assume "text \<noteq> [] \<and> (finnishChars text \<or> \<not> plain_ascii text) \<and>
    text \<notin> set inherited_names \<and> deepl_post env tr text = Inl e"
  then show "translateToEnglish env text tr =
      (Inr (case map_of translations_map text of None \<Rightarrow> text | Some t \<Rightarrow> t),
       tr @ [DeeplPost text (Inl e)])"
    by (auto simp: translateToEnglish_def Let_def translateFinnishToEnglishBasic_entry)
next
  let ?s = "js ''S'' @ [228] @ js ''hk'' @ [246] @ js ''asennus''"
  assume f: "deepl_post env tr ?s = Inl e"
  have "finnishChars ?s" by (simp add: finnishChars_def js_def)
  moreover have "?s \<noteq> []" by (simp add: js_def)
  moreover have "?s \<notin> set inherited_names"
    by (simp add: inherited_names_def prototype_functions_def js_def)
  moreover have "map_of translations_map ?s = Some (js ''Electrical installation'')"
    by (simp add: translations_map_def js_def)
  ultimately show "fst (translateToEnglish env ?s tr) = Inr (js ''Electrical installation'')"
    using f by (simp add: translateToEnglish_def Let_def translateFinnishToEnglishBasic_entry)
qed

theorem translate_fallback_witness:
  "translateToEnglish offline (js ''Muurausty'' @ [246] @ js ''t'') [] =
     (Inr (js ''Masonry work''),
      [DeeplPost (js ''Muurausty'' @ [246] @ js ''t'') (Inl (HttpError ''offline''))]) \<and>
   translateToEnglish offline (js ''Sahatavara 2'') [] =
     (Inr (js ''Sahatavara 2''),
      [DeeplPost (js ''Sahatavara 2'') (Inl (HttpError ''offline''))])"
proof -
  let ?m = "js ''Muurausty'' @ [246] @ js ''t''"
  let ?s = "js ''Sahatavara 2''"
  have m1: "?m \<noteq> [] \<and> (finnishChars ?m \<or> \<not> plain_ascii ?m) \<and>
      ?m \<notin> set inherited_names \<and> deepl_post offline [] ?m = Inl (HttpError ''offline'')"
    by (simp add: finnishChars_def inherited_names_def prototype_functions_def js_def
        offline_def)
  have m2: "map_of translations_map ?m = Some (js ''Masonry work'')"
    by (simp add: translations_map_def js_def)
  have s1: "?s \<noteq> [] \<and> (finnishChars ?s \<or> \<not> plain_ascii ?s) \<and>
      ?s \<notin> set inherited_names \<and> deepl_post offline [] ?s = Inl (HttpError ''offline'')"
    by (simp add: plain_ascii_def plain_char_def is_ascii_letter_def is_space_def
        inherited_names_def prototype_functions_def js_def offline_def)
  have s2: "map_of translations_map ?s = None"
    by (simp add: translations_map_def js_def)
  show ?thesis
    using translate_fallback [of ?m offline "[]" "HttpError ''offline''"] m1 m2
      translate_fallback [of ?s offline "[]" "HttpError ''offline''"] s1 s2
    by simp
qed

text \<open>
  The restriction on the name is needed.  The input \<open>__proto__\<close> does not match the
  plain-ASCII pattern, so the request is made; when it fails, the read of the fallback
  table gives the prototype object, on which \<open>substring\<close> is not a function: a
  \<open>TypeError\<close> leaves \<open>translateToEnglish\<close>.
\<close>

lemma translate_inherited_name:
  "translateToEnglish offline (js ''__proto__'') [] =
     (Inl (TypeError ''basicTranslation.substring is not a function''),
      [DeeplPost (js ''__proto__'') (Inl (HttpError ''offline''))])"
proof -
  let ?p = "js ''__proto__''"
  have "\<not> plain_ascii ?p"
    by (simp add: plain_ascii_def plain_char_def is_ascii_letter_def is_space_def js_def)
  moreover have "?p \<noteq> []" by (simp add: js_def)
  moreover have "map_of translations_map ?p = None"
    by (simp add: translations_map_def js_def)
  then have "translateFinnishToEnglishBasic ?p = Member ?p"
    by (simp add: translateFinnishToEnglishBasic_def js_get_def inherited_names_def)
  ultimately show ?thesis
    by (simp add: translateToEnglish_def Let_def offline_def)
qed

section \<open>Address: properties\<close>

text \<open>
  Claim C8.  For the visiting address with street \<open>Mannerheimintie\<close>, building number
  \<open>10\<close>, postal code \<open>00100\<close> and city \<open>Helsinki\<close>, and neither entrance nor
  apartment number, the composed address is \<open>Mannerheimintie10, 00100 Helsinki\<close>.  With
  the postal code missing as well, the composed address is
  \<open>Mannerheimintie10,  Helsinki\<close>: the two spaces of the template around the empty
  postal code stay, so a missing optional part does leave a double space.
\<close>

theorem compose_address_double_space:
  "compose_address mannerheimintie = js ''Mannerheimintie10, 00100 Helsinki'' \<and>
   compose_address (mannerheimintie\<lparr>a_postCode := []\<rparr>) = js ''Mannerheimintie10,  Helsinki''"
  by (simp add: compose_address_def mannerheimintie_def js_def city_in_def first_city_def
      js_or_def trim_def is_space_def)


section \<open>Batch vectoriser: properties\<close>

lemma vectorize_loop_ok:
  assumes ok: "\<forall>h batch. \<exists>vs. voyage_post env h batch = Inr vs \<and> list_all2 R batch vs"
  shows "\<exists>vs evs. vectorize_loop env texts i acc tr = (Inr (acc @ vs), tr @ evs) \<and>
           list_all2 R (drop i texts) vs \<and>
           voyage_batches evs = chunks_of batchSize (drop i texts) \<and>
           vs = voyage_vectors evs"
  using ok
proof (induction env texts i acc tr rule: vectorize_loop.induct)
  case (1 env texts i allVectors tr)
  note IH = "1.IH"
  note ok = "1.prems"
  show ?case
  proof (cases "i < length texts")
    case False
    then have "vectorize_loop env texts i allVectors tr = (Inr (allVectors @ []), tr @ [])"
      by (simp add: vectorize_loop.simps [of env texts i])
    moreover from False have "drop i texts = []" by simp
    ultimately show ?thesis
      by (metis list_all2_Nil chunks_of.simps voyage_batches_def voyage_vectors_def
          concat.simps(1) list.map(1))
  next
    case True
    define batch where "batch = js_slice texts (int i) (int (i + batchSize))"
    from ok obtain b where r: "voyage_post env tr batch = Inr b" and al: "list_all2 R batch b"
      by blast
    define tr1 where "tr1 = tr @ [VoyagePost batch (Inr b)]"
    define tr2 where "tr2 = (if i + batchSize < length texts then tr1 @ [Sleep 60000] else tr1)"
    have step: "vectorize_loop env texts i allVectors tr =
        vectorize_loop env texts (i + batchSize) (allVectors @ b) tr2"
      using True r by (simp add: vectorize_loop.simps [of env texts i] Let_def batch_def tr1_def tr2_def)
    have "\<exists>vs evs.
        vectorize_loop env texts (i + batchSize) (allVectors @ b) tr2 =
          (Inr ((allVectors @ b) @ vs), tr2 @ evs) \<and>
        list_all2 R (drop (i + batchSize) texts) vs \<and>
        voyage_batches evs = chunks_of batchSize (drop (i + batchSize) texts) \<and>
        vs = voyage_vectors evs"
      using IH [OF True batch_def refl refl r ok]
      unfolding r tr1_def tr2_def .
    then obtain vs evs where
      run: "vectorize_loop env texts (i + batchSize) (allVectors @ b) tr2 =
              (Inr ((allVectors @ b) @ vs), tr2 @ evs)" and
      al2: "list_all2 R (drop (i + batchSize) texts) vs" and
      bs: "voyage_batches evs = chunks_of batchSize (drop (i + batchSize) texts)" and
      vv: "vs = voyage_vectors evs"
      by blast
    have batch: "batch = take batchSize (drop i texts)"
      unfolding batch_def by (rule js_slice_nat)
    define pre where "pre = (if i + batchSize < length texts
        then [VoyagePost batch (Inr b), Sleep 60000] else [VoyagePost batch (Inr b)])"
    have pre: "tr2 = tr @ pre"
      by (simp add: tr2_def tr1_def pre_def)
    have pre_b: "voyage_batches pre = [batch]"
      by (simp add: pre_def voyage_batches_def)
    have pre_v: "voyage_vectors pre = b"
      by (simp add: pre_def voyage_vectors_def)
    have d: "drop (i + batchSize) texts = drop batchSize (drop i texts)"
      by (simp add: add.commute)
    have al': "list_all2 R (take batchSize (drop i texts)) b"
      using al by (simp only: batch)
    have al2': "list_all2 R (drop batchSize (drop i texts)) vs"
      using al2 by (simp only: d)
    have A: "list_all2 R (drop i texts) (b @ vs)"
      using list_all2_appendI [OF al' al2'] by (simp only: append_take_drop_id)
    have ne: "drop i texts \<noteq> []" using True by simp
    have B0: "chunks_of batchSize (drop i texts) =
        take batchSize (drop i texts) # chunks_of batchSize (drop batchSize (drop i texts))"
      using ne by (subst chunks_of.simps) (simp add: batchSize_def)
    have B: "voyage_batches (pre @ evs) = chunks_of batchSize (drop i texts)"
      by (simp only: voyage_batches_append pre_b bs d batch B0 append.simps)
    have C: "b @ vs = voyage_vectors (pre @ evs)"
      by (simp add: pre_v vv)
    have "vectorize_loop env texts i allVectors tr = (Inr ((allVectors @ b) @ vs), tr2 @ evs)"
      by (simp only: step run)
    then have "vectorize_loop env texts i allVectors tr =
        (Inr (allVectors @ (b @ vs)), tr @ (pre @ evs))"
      by (simp only: pre append_assoc)
    with A B C show ?thesis by blast
  qed
qed

text \<open>
  Claim C1.  Assume that every request to the embedding service returns one vector per
  input string, in input order: the answer to a batch is a list related to the batch
  position by position (\<open>R s v\<close> reads: \<open>v\<close> is the vector of the string \<open>s\<close>).  Then
  \<open>vectorizeWithVoyage\<close> returns a list of vectors that has the length of the input and
  is related to the input position by position; the batches it sent are the consecutive
  chunks of 100 of the input, one request per chunk; and the result is the answers
  appended in the order received.
\<close>

theorem vectorize_aligned:
  assumes "\<forall>h batch. \<exists>vs. voyage_post env h batch = Inr vs \<and> list_all2 R batch vs"
  shows "\<exists>vs evs. vectorizeWithVoyage env texts tr = (Inr vs, tr @ evs) \<and>
           length vs = length texts \<and>
           list_all2 R texts vs \<and>
           voyage_batches evs = chunks_of 100 texts \<and>
           vs = voyage_vectors evs"
proof -
  from vectorize_loop_ok [OF assms, of texts 0 "[]" tr]
  obtain vs evs where "vectorize_loop env texts 0 [] tr = (Inr vs, tr @ evs)"
    and "list_all2 R texts vs" and "voyage_batches evs = chunks_of batchSize texts"
    and "vs = voyage_vectors evs"
    by auto
  then show ?thesis
    by (auto simp: vectorizeWithVoyage_def batchSize_def dest: list_all2_lengthD)
qed

theorem vectorize_aligned_witness:
  "\<exists>vs evs. vectorizeWithVoyage healthy [js ''ab'', js ''c''] [] = (Inr vs, [] @ evs) \<and>
      length vs = length [js ''ab'', js ''c''] \<and>
      list_all2 (\<lambda>s v. v = length s) [js ''ab'', js ''c''] vs \<and>
      voyage_batches evs = chunks_of 100 [js ''ab'', js ''c''] \<and>
      vs = voyage_vectors evs"
proof -
  have "\<forall>h batch. \<exists>vs. voyage_post healthy h batch = Inr vs \<and>
      list_all2 (\<lambda>s v. v = length s) batch vs"
    by (simp add: healthy_def list_all2_conv_all_nth)
  then show ?thesis by (rule vectorize_aligned)
qed

text \<open>
  Claim C9.  If a request of \<open>vectorizeWithVoyage\<close> to the embedding service fails with
  the error \<open>e\<close>, the call returns that error and no vectors; the failed request is the
  last event of the call and no request before it had failed (no retry, nothing after
  it).  In both pipelines, a run of \<open>main\<close> whose trace has a failed embedding request
  ends with exit code 1, the failed request is its last event, and the trace has no
  request to the store: the vectors of the earlier chunks are dropped and nothing is
  written.
\<close>

theorem embedding_failure_aborts:
  "(vectorizeWithVoyage env texts tr = (res, tr') \<and>
      VoyagePost b (Inl e) \<in> set (drop (length tr) tr')
     \<longrightarrow> res = Inl e \<and>
         (\<exists>pre. tr' = tr @ pre @ [VoyagePost b (Inl e)] \<and> \<not> list_ex failed_embed pre)) \<and>
   (main env cfg = Some (code, tr1) \<and> VoyagePost b (Inl e) \<in> set tr1
     \<longrightarrow> code = 1 \<and> last tr1 = VoyagePost b (Inl e) \<and> \<not> list_ex is_store_event tr1) \<and>
   (main_investor env cfg = Some (code, tr1) \<and> VoyagePost b (Inl e) \<in> set tr1
     \<longrightarrow> code = 1 \<and> last tr1 = VoyagePost b (Inl e) \<and> \<not> list_ex is_store_event tr1)"
proof (intro conjI impI)
  assume "vectorizeWithVoyage env texts tr = (res, tr') \<and>
      VoyagePost b (Inl e) \<in> set (drop (length tr) tr')"
  then have run: "vectorizeWithVoyage env texts tr = (res, tr')"
    and mem: "VoyagePost b (Inl e) \<in> set (drop (length tr) tr')" by simp_all
  from vectorize_fail [OF run mem]
  show "res = Inl e"
    and "\<exists>pre. tr' = tr @ pre @ [VoyagePost b (Inl e)] \<and> \<not> list_ex failed_embed pre"
    by blast+
next
  assume "main env cfg = Some (code, tr1) \<and> VoyagePost b (Inl e) \<in> set tr1"
  then have run: "main env cfg = Some (code, tr1)" and mem: "VoyagePost b (Inl e) \<in> set tr1"
    by simp_all
  from main_fail [OF run mem]
  show "code = 1" and "last tr1 = VoyagePost b (Inl e)" and "\<not> list_ex is_store_event tr1"
    by simp_all
next
  assume "main_investor env cfg = Some (code, tr1) \<and> VoyagePost b (Inl e) \<in> set tr1"
  then have run: "main_investor env cfg = Some (code, tr1)"
    and mem: "VoyagePost b (Inl e) \<in> set tr1"
    by simp_all
  from main_investor_fail [OF run mem]
  show "code = 1" and "last tr1 = VoyagePost b (Inl e)" and "\<not> list_ex is_store_event tr1"
    by simp_all
qed

theorem embedding_failure_aborts_witness:
  "(\<exists>b e. fst (vectorizeWithVoyage no_embeddings [js ''ab'', js ''c''] []) = Inl e \<and>
       last (snd (vectorizeWithVoyage no_embeddings [js ''ab'', js ''c''] [])) =
         VoyagePost b (Inl e)) \<and>
   (\<exists>t. main no_embeddings sample_config = Some (1, t) \<and> failed_embed (last t) \<and>
       \<not> list_ex is_store_event t) \<and>
   (\<exists>t. main_investor no_embeddings sample_config = Some (1, t) \<and> failed_embed (last t) \<and>
       \<not> list_ex is_store_event t)"
proof (intro conjI)
  let ?run = "vectorizeWithVoyage no_embeddings [js ''ab'', js ''c''] []"
  have "list_ex failed_embed (snd ?run)" by code_simp
  then obtain b e where "VoyagePost b (Inl e) \<in> set (drop (length ([] :: nat trace)) (snd ?run))"
    by (auto simp: list_ex_iff failed_embed_iff)
  moreover have "?run = (fst ?run, snd ?run)" by simp
  ultimately have "fst ?run = Inl e \<and>
      (\<exists>pre. snd ?run = [] @ pre @ [VoyagePost b (Inl e)] \<and> \<not> list_ex failed_embed pre)"
    using embedding_failure_aborts
      [where env = no_embeddings and texts = "[js ''ab'', js ''c'']" and tr = "[]"
        and res = "fst ?run" and tr' = "snd ?run" and b = b and e = e]
    by blast
  then have "fst ?run = Inl e \<and> last (snd ?run) = VoyagePost b (Inl e)" by auto
  then show "\<exists>b e. fst ?run = Inl e \<and> last (snd ?run) = VoyagePost b (Inl e)" by blast
next
  let ?m = "main no_embeddings sample_config"
  have "?m \<noteq> None \<and> list_ex failed_embed (snd (the ?m))" by code_simp
  then obtain c t b e where m: "?m = Some (c, t)" and mem: "VoyagePost b (Inl e) \<in> set t"
    by (auto simp: list_ex_iff failed_embed_iff)
  then have "c = 1 \<and> last t = VoyagePost b (Inl e) \<and> \<not> list_ex is_store_event t"
    using embedding_failure_aborts
      [where env = no_embeddings and cfg = sample_config and code = c and ?tr1.0 = t
        and b = b and e = e]
    by blast
  with m show "\<exists>t. ?m = Some (1, t) \<and> failed_embed (last t) \<and> \<not> list_ex is_store_event t"
    by (auto simp: failed_embed_def)
next
  let ?m = "main_investor no_embeddings sample_config"
  have "?m \<noteq> None \<and> list_ex failed_embed (snd (the ?m))" by code_simp
  then obtain c t b e where m: "?m = Some (c, t)" and mem: "VoyagePost b (Inl e) \<in> set t"
    by (auto simp: list_ex_iff failed_embed_iff)
  then have "c = 1 \<and> last t = VoyagePost b (Inl e) \<and> \<not> list_ex is_store_event t"
    using embedding_failure_aborts
      [where env = no_embeddings and cfg = sample_config and code = c and ?tr1.0 = t
        and b = b and e = e]
    by blast
  with m show "\<exists>t. ?m = Some (1, t) \<and> failed_embed (last t) \<and> \<not> list_ex is_store_event t"
    by (auto simp: failed_embed_def)
qed

section \<open>The two pipelines: properties\<close>

text \<open>
  Claim C10.  With the required environment variables set: if the registry fetch of the
  company pipeline returns the empty list, \<open>main\<close> returns with exit code 0 right after
  the fetch, and its trace has no request to the embedding service and none to the
  store; if the roster file of the investor pipeline holds no investor,
  \<open>main\<close> returns with exit code 0 right after reading the file.
\<close>

theorem empty_source_exits_zero:
  "(\<not> missing_env cfg \<and> fetchCompaniesFromAPI env 500 None [] = (Inr [], cache, tr1)
     \<longrightarrow> main env cfg = Some (0, tr1) \<and>
         \<not> list_ex is_embed_event tr1 \<and> \<not> list_ex is_store_event tr1) \<and>
   (\<not> missing_env cfg \<and> read_investors env [] = Inr []
     \<longrightarrow> main_investor env cfg = Some (0, [ReadInvestors (Inr [])]))"
proof (intro conjI impI)
  assume h: "\<not> missing_env cfg \<and> fetchCompaniesFromAPI env 500 None [] = (Inr [], cache, tr1)"
  then show "main env cfg = Some (0, tr1)" by (simp add: main_def)
  have "grows_by is_source_event [] tr1"
    using fetchCompanies_grows [of "[]" env 500 None] h by simp
  then have src: "list_all is_source_event tr1" by (simp add: grows_by_def)
  then show "\<not> list_ex is_embed_event tr1"
    by (auto simp: list_all_iff list_ex_iff dest: source_event_kinds)
  from src show "\<not> list_ex is_store_event tr1"
    by (auto simp: list_all_iff list_ex_iff dest: source_event_kinds)
next
  assume "\<not> missing_env cfg \<and> read_investors env [] = Inr []"
  then show "main_investor env cfg = Some (0, [ReadInvestors (Inr [])])"
    by (simp add: main_investor_def loadInvestorsFromJSON_def)
qed

theorem empty_source_exits_zero_witness:
  "(\<exists>t. main empty_source sample_config = Some (0, t) \<and>
       \<not> list_ex is_embed_event t \<and> \<not> list_ex is_store_event t) \<and>
   main_investor empty_source sample_config = Some (0, [ReadInvestors (Inr [])])"
proof -
  let ?f = "fetchCompaniesFromAPI empty_source 500 None []"
  have c: "\<not> missing_env sample_config"
    by (simp add: missing_env_def sample_config_def js_def)
  have "fst ?f = Inr []" by code_simp
  then have f: "?f = (Inr [], fst (snd ?f), snd (snd ?f))"
    by (metis prod.collapse)
  have r: "read_investors empty_source [] = Inr []"
    by (simp add: empty_source_def)
  show ?thesis
    using empty_source_exits_zero [of sample_config empty_source "fst (snd ?f)" "snd (snd ?f)"]
      c f r
    by blast
qed

section \<open>Classification cache: properties\<close>

text \<open>
  Claim C3, as stated, fails: a failed first fetch is not cached.  With a
  classification service that fails on the first request and answers afterwards, the
  first call returns the empty table and leaves the module variable \<open>null\<close>; the
  second call makes the request again and returns a table that has the code 62010.
  Two calls in a row leave two requests in the trace.
\<close>

theorem cache_failure_counterexample:
  "fetchIndustryClassifications flaky None [] =
     (empty_table, None, [StatGet (Inl (HttpError ''timeout''))]) \<and>
   snd (snd (fetchIndustryClassifications flaky None [StatGet (Inl (HttpError ''timeout''))])) =
     [StatGet (Inl (HttpError ''timeout'')), StatGet (Inr (Arr sample_items))] \<and>
   own_entries (fst (fetchIndustryClassifications flaky None [StatGet (Inl (HttpError ''timeout''))]))
     (js ''62010'') \<noteq> None \<and>
   fst (snd (fetch_times flaky 2 None [])) \<noteq> None \<and>
   snd (snd (fetch_times flaky 2 None [])) =
     [StatGet (Inl (HttpError ''timeout'')), StatGet (Inr (Arr sample_items))]"
  by (simp add: fetchIndustryClassifications_def flaky_def healthy_def sample_items_def js_def
      table_set_def empty_table_def numeral_2_eq_2 split: prod.splits)

text \<open>
  Claim C3, amended.  Once the module variable holds a table, a call returns that
  table and makes no request, and so do any number of calls in a row.  A call whose
  request is answered sets the variable, so that every subsequent call in the same
  process returns the memoized table without another request.  A call whose request
  fails returns the empty table and leaves the variable unset: the failure is not
  memoized.
\<close>

theorem cache_memoizes:
  "fetchIndustryClassifications env (Some c) tr = (c, Some c, tr) \<and>
   fetch_times env n (Some c) tr = (replicate n c, Some c, tr) \<and>
   (stat_get env tr = Inr p \<longrightarrow>
      (\<exists>m c'. fetchIndustryClassifications env None tr = (m, Some c', tr @ [StatGet (Inr p)]) \<and>
         fetch_times env (Suc n) None tr =
           (m # replicate n c', Some c', tr @ [StatGet (Inr p)]))) \<and>
   (stat_get env tr = Inl e \<longrightarrow>
      fetchIndustryClassifications env None tr = (empty_table, None, tr @ [StatGet (Inl e)]))"
proof (intro conjI impI)
  show "fetchIndustryClassifications env (Some c) tr = (c, Some c, tr)"
    by (simp add: fetchIndustryClassifications_def)
  show "fetch_times env n (Some c) tr = (replicate n c, Some c, tr)"
    by (rule fetch_times_cached)
next
  assume p: "stat_get env tr = Inr p"
  obtain m err where l: "load_items (case p of Arr xs \<Rightarrow> xs | Single x \<Rightarrow> [x]) empty_table = (m, err)"
    by (cases "load_items (case p of Arr xs \<Rightarrow> xs | Single x \<Rightarrow> [x]) empty_table")
  define r where "r = (case err of None \<Rightarrow> m | Some e \<Rightarrow> empty_table)"
  have f: "fetchIndustryClassifications env None tr = (r, Some m, tr @ [StatGet (Inr p)])"
    using p l by (simp add: fetchIndustryClassifications_def Let_def r_def split: option.splits)
  then have "fetch_times env (Suc n) None tr = (r # replicate n m, Some m, tr @ [StatGet (Inr p)])"
    by (simp add: fetch_times_cached)
  with f show "\<exists>m c'. fetchIndustryClassifications env None tr =
        (m, Some c', tr @ [StatGet (Inr p)]) \<and>
      fetch_times env (Suc n) None tr = (m # replicate n c', Some c', tr @ [StatGet (Inr p)])"
    by blast
next
  assume "stat_get env tr = Inl e"
  then show "fetchIndustryClassifications env None tr = (empty_table, None, tr @ [StatGet (Inl e)])"
    by (simp add: fetchIndustryClassifications_def)
qed

theorem cache_memoizes_witness:
  "(\<exists>m c'. fetchIndustryClassifications healthy None [] =
        (m, Some c', [] @ [StatGet (Inr (Arr sample_items))]) \<and>
      fetch_times healthy (Suc 3) None [] =
        (m # replicate 3 c', Some c', [] @ [StatGet (Inr (Arr sample_items))])) \<and>
   fetchIndustryClassifications offline None [] =
     (empty_table, None, [] @ [StatGet (Inl (HttpError ''offline''))])"
proof -
  have a: "stat_get healthy [] = Inr (Arr sample_items)" by (simp add: healthy_def)
  have b: "stat_get offline [] = Inl (HttpError ''offline'')" by (simp add: offline_def)
  show ?thesis
    using cache_memoizes [of healthy _ "[]" 3 "Arr sample_items"] a
      cache_memoizes [of offline _ "[]" _ _ "HttpError ''offline''"] b
    by blast
qed

section \<open>Store writer: properties\<close>

text \<open>
  Claim C2 fails on the code for a natural key that names a member of
  \<open>Object.prototype\<close>.  The id map is a plain object, and the read \<open>map[key]\<close> of a key
  that has no own property gives the inherited member of that name, which is truthy: the
  filter \<open>item => item.company_id\<close> keeps the row.

  With a store whose read-back misses the first key it is asked for, the company whose
  business identifier is \<open>constructor\<close> and the investor whose id is \<open>constructor\<close>
  are absent from the read-back, and yet each has a row in the embedding upsert, with the
  inherited function in the place of the surrogate id.  With a store that knows every
  key, the investor whose id is \<open>__proto__\<close> is in the read-back with the surrogate id
  1, but the assignment to that key adds no property to the map, and its row carries the
  prototype object in the place of the id 1.  In each run the store call returns without
  an error.
\<close>

theorem store_inherited_key:
  "map_option (\<lambda>(res, tr). (res, read_back tr, upserted ''company_embeddings'' tr))
     (storeInSupabase forgetful 50 sample_companies [10, 20] []) =
     Some (Inr (), [\<lparr> ir_id = IdNum 2, ir_key = js ''7654321-0'' \<rparr>],
       [EmbeddingRow (Member (js ''constructor'')) (Some 10),
        EmbeddingRow (Val (IdNum 2)) (Some 20)]) \<and>
   map_option (\<lambda>(res, tr). (res, read_back tr, upserted ''investor_embeddings'' tr))
     (storeInSupabase_investor forgetful 50 (roster_with (js ''constructor'')) [10, 20] []) =
     Some (Inr (), [\<lparr> ir_id = IdNum 2, ir_key = js ''investor_01'' \<rparr>],
       [EmbeddingRow (Member (js ''constructor'')) (Some 10),
        EmbeddingRow (Val (IdNum 2)) (Some 20)]) \<and>
   map_option (\<lambda>(res, tr). (res, read_back tr, upserted ''investor_embeddings'' tr))
     (storeInSupabase_investor healthy 50 (roster_with (js ''__proto__'')) [10, 20] []) =
     Some (Inr (), [\<lparr> ir_id = IdNum 1, ir_key = js ''__proto__'' \<rparr>,
                    \<lparr> ir_id = IdNum 2, ir_key = js ''investor_01'' \<rparr>],
       [EmbeddingRow (Member (js ''__proto__'')) (Some 10),
        EmbeddingRow (Val (IdNum 2)) (Some 20)])"
proof (intro conjI)
  show "map_option (\<lambda>(res, tr). (res, read_back tr, upserted ''company_embeddings'' tr))
     (storeInSupabase forgetful 50 sample_companies [10, 20] []) =
     Some (Inr (), [\<lparr> ir_id = IdNum 2, ir_key = js ''7654321-0'' \<rparr>],
       [EmbeddingRow (Member (js ''constructor'')) (Some 10),
        EmbeddingRow (Val (IdNum 2)) (Some 20)])"
    by code_simp
  show "map_option (\<lambda>(res, tr). (res, read_back tr, upserted ''investor_embeddings'' tr))
     (storeInSupabase_investor forgetful 50 (roster_with (js ''constructor'')) [10, 20] []) =
     Some (Inr (), [\<lparr> ir_id = IdNum 2, ir_key = js ''investor_01'' \<rparr>],
       [EmbeddingRow (Member (js ''constructor'')) (Some 10),
        EmbeddingRow (Val (IdNum 2)) (Some 20)])"
    by code_simp
  show "map_option (\<lambda>(res, tr). (res, read_back tr, upserted ''investor_embeddings'' tr))
     (storeInSupabase_investor healthy 50 (roster_with (js ''__proto__'')) [10, 20] []) =
     Some (Inr (), [\<lparr> ir_id = IdNum 1, ir_key = js ''__proto__'' \<rparr>,
                    \<lparr> ir_id = IdNum 2, ir_key = js ''investor_01'' \<rparr>],
       [EmbeddingRow (Member (js ''__proto__'')) (Some 10),
        EmbeddingRow (Val (IdNum 2)) (Some 20)])"
    by code_simp
qed

section \<open>Registry source adapter: properties\<close>

text \<open>
  Claim C4.  In every run of \<open>fetchCompaniesFromAPI\<close> with target count
  \<open>maxResults\<close>, the listing requests are for the pages 1, 2, 3, ... in order, and
  there are at most 50 of them.  A request is made only while the records accumulated
  from the answers before it (those that pass the filter) are fewer than the target: no
  request is made after the target is reached.  Every page but the last one asked for
  had at least 100 records.  When the fetch returns a list, its length is the minimum
  of the target and the number of accumulated records (so at most the target: an
  overshoot is cut to exactly the target), and the requests stopped because the
  accumulated records reached the target, or the last page had fewer than 100 records,
  or 50 pages had been asked for.
\<close>

theorem fetch_pagination:
  "fetchCompaniesFromAPI env maxResults cache tr = (res, cache', tr') \<longrightarrow>
   (\<exists>evs. tr' = tr @ evs \<and>
      map fst (page_events evs) = [1..<Suc (length (page_events evs))] \<and>
      length (page_events evs) \<le> 50 \<and>
      (\<forall>j<length (page_events evs).
         length (accumulated env (take j (page_events evs))) < maxResults) \<and>
      (\<forall>j. Suc j < length (page_events evs) \<longrightarrow>
         resultsPerPage \<le> length (listed (snd (page_events evs ! j)))) \<and>
      (\<forall>cs. res = Inr cs \<longrightarrow>
         length cs = min maxResults (length (accumulated env (page_events evs))) \<and>
         length cs \<le> maxResults \<and>
         (maxResults \<le> length (accumulated env (page_events evs)) \<or>
          (page_events evs \<noteq> [] \<and>
           length (listed (snd (last (page_events evs)))) < resultsPerPage) \<or>
          length (page_events evs) = 50)))"
proof
  assume run: "fetchCompaniesFromAPI env maxResults cache tr = (res, cache', tr')"
  from fetchCompanies_run [OF run]
  obtain evs where e: "tr' = tr @ evs"
    and pg: "paged env maxResults 0 1 (page_events evs)"
    and ok: "\<forall>cs. res = Inr cs \<longrightarrow>
        list_all2 (\<lambda>raw c. (\<exists>cls t. fst (processCompany env cls raw t) = Inr c) \<and>
            co_businessId c = extract_businessId raw \<and> co_industryCode c = industry_code raw)
          (take maxResults (accumulated env (page_events evs))) cs"
    by blast
  let ?ps = "page_events evs"
  have A: "map fst ?ps = [1..<Suc (length ?ps)]"
    using paged_pages [OF pg] by simp
  have B: "length ?ps \<le> 50"
    using paged_ceiling [OF pg] by (cases "?ps = []") simp_all
  have C: "\<forall>j<length ?ps. length (accumulated env (take j ?ps)) < maxResults"
    using paged_below_target [OF pg] by simp
  have D: "\<forall>j. Suc j < length ?ps \<longrightarrow> resultsPerPage \<le> length (listed (snd (?ps ! j)))"
    using paged_full [OF pg] by simp
  have E: "\<forall>cs. res = Inr cs \<longrightarrow>
         length cs = min maxResults (length (accumulated env ?ps)) \<and>
         length cs \<le> maxResults \<and>
         (maxResults \<le> length (accumulated env ?ps) \<or>
          (?ps \<noteq> [] \<and> length (listed (snd (last ?ps))) < resultsPerPage) \<or>
          length ?ps = 50)"
  proof (intro allI impI)
    fix cs
    assume r: "res = Inr cs"
    with ok have "list_all2 (\<lambda>raw c. (\<exists>cls t. fst (processCompany env cls raw t) = Inr c) \<and>
            co_businessId c = extract_businessId raw \<and> co_industryCode c = industry_code raw)
          (take maxResults (accumulated env ?ps)) cs" by simp
    then have len: "length cs = min maxResults (length (accumulated env ?ps))"
      by (auto dest: list_all2_lengthD simp: min.commute)
    have stop: "maxResults \<le> length (accumulated env ?ps) \<or>
          (?ps \<noteq> [] \<and> length (listed (snd (last ?ps))) < resultsPerPage) \<or>
          length ?ps = 50"
    proof (cases "?ps = []")
      case True
      with paged_stop [OF pg] show ?thesis by simp
    next
      case False
      have "(\<exists>e. snd (last ?ps) = Inl e) \<longrightarrow>
          length (listed (snd (last ?ps))) < resultsPerPage"
        by (auto simp: listed_def resultsPerPage_def)
      with paged_stop [OF pg] False show ?thesis by auto
    qed
    from len stop show "length cs = min maxResults (length (accumulated env ?ps)) \<and>
         length cs \<le> maxResults \<and>
         (maxResults \<le> length (accumulated env ?ps) \<or>
          (?ps \<noteq> [] \<and> length (listed (snd (last ?ps))) < resultsPerPage) \<or>
          length ?ps = 50)"
      by simp
  qed
  from e A B C D E show "\<exists>evs. tr' = tr @ evs \<and>
      map fst (page_events evs) = [1..<Suc (length (page_events evs))] \<and>
      length (page_events evs) \<le> 50 \<and>
      (\<forall>j<length (page_events evs).
         length (accumulated env (take j (page_events evs))) < maxResults) \<and>
      (\<forall>j. Suc j < length (page_events evs) \<longrightarrow>
         resultsPerPage \<le> length (listed (snd (page_events evs ! j)))) \<and>
      (\<forall>cs. res = Inr cs \<longrightarrow>
         length cs = min maxResults (length (accumulated env (page_events evs))) \<and>
         length cs \<le> maxResults \<and>
         (maxResults \<le> length (accumulated env (page_events evs)) \<or>
          (page_events evs \<noteq> [] \<and>
           length (listed (snd (last (page_events evs)))) < resultsPerPage) \<or>
          length (page_events evs) = 50))"
    by blast
qed


theorem fetch_pagination_witness:
  "(\<exists>evs. snd (snd (fetchCompaniesFromAPI no_embeddings 1 None [])) = [] @ evs \<and>
      map fst (page_events evs) = [1..<Suc (length (page_events evs))] \<and>
      length (page_events evs) \<le> 50 \<and>
      (\<forall>j<length (page_events evs).
         length (accumulated no_embeddings (take j (page_events evs))) < 1) \<and>
      (\<forall>j. Suc j < length (page_events evs) \<longrightarrow>
         resultsPerPage \<le> length (listed (snd (page_events evs ! j)))) \<and>
      (\<forall>cs. fst (fetchCompaniesFromAPI no_embeddings 1 None []) = Inr cs \<longrightarrow>
         length cs = min 1 (length (accumulated no_embeddings (page_events evs))) \<and>
         length cs \<le> 1 \<and>
         (1 \<le> length (accumulated no_embeddings (page_events evs)) \<or>
          (page_events evs \<noteq> [] \<and>
           length (listed (snd (last (page_events evs)))) < resultsPerPage) \<or>
          length (page_events evs) = 50))) \<and>
   map fst (page_events (snd (snd (fetchCompaniesFromAPI no_embeddings 1 None [])))) = [1] \<and>
   map_sum (\<lambda>e. ()) length (fst (fetchCompaniesFromAPI no_embeddings 1 None [])) = Inr 1"
proof -
  let ?f = "fetchCompaniesFromAPI no_embeddings 1 None []"
  have "?f = (fst ?f, fst (snd ?f), snd (snd ?f))" by simp
  with fetch_pagination [of no_embeddings 1 None "[]" "fst ?f" "fst (snd ?f)" "snd (snd ?f)"]
  have p1: "\<exists>evs. snd (snd ?f) = [] @ evs \<and>
      map fst (page_events evs) = [1..<Suc (length (page_events evs))] \<and>
      length (page_events evs) \<le> 50 \<and>
      (\<forall>j<length (page_events evs).
         length (accumulated no_embeddings (take j (page_events evs))) < 1) \<and>
      (\<forall>j. Suc j < length (page_events evs) \<longrightarrow>
         resultsPerPage \<le> length (listed (snd (page_events evs ! j)))) \<and>
      (\<forall>cs. fst ?f = Inr cs \<longrightarrow>
         length cs = min 1 (length (accumulated no_embeddings (page_events evs))) \<and>
         length cs \<le> 1 \<and>
         (1 \<le> length (accumulated no_embeddings (page_events evs)) \<or>
          (page_events evs \<noteq> [] \<and>
           length (listed (snd (last (page_events evs)))) < resultsPerPage) \<or>
          length (page_events evs) = 50))"
    by (rule mp)
  have p2: "map fst (page_events (snd (snd ?f))) = [1]" by code_simp
  have p3: "map_sum (\<lambda>e. ()) length (fst ?f) = Inr 1" by code_simp
  show ?thesis by (rule conjI [OF p1 conjI [OF p2 p3]])
qed

text \<open>
  Claim C5.  When \<open>fetchCompaniesFromAPI\<close> returns a list of entities, the entities
  are, position by position, the normalised forms of the first \<open>maxResults\<close> records
  among the listed records that pass the filter, in the order listed: every record that
  fails the filter is left out.  Every one of these records has a registration date
  whose year is at least 2020 and a present (non-empty) industry classification code,
  which is the industry code of its entity.
\<close>

theorem fetch_filters:
  "fetchCompaniesFromAPI env maxResults cache tr = (Inr cs, cache', tr') \<longrightarrow>
   (\<exists>evs raws. tr' = tr @ evs \<and>
      raws = take maxResults
        (filter (validCompany env) (concat (map (\<lambda>(p, r). listed r) (page_events evs)))) \<and>
      list_all2 (\<lambda>raw c. (\<exists>cls t. fst (processCompany env cls raw t) = Inr c) \<and>
          co_businessId c = extract_businessId raw \<and> co_industryCode c = industry_code raw)
        raws cs \<and>
      (\<forall>raw \<in> set raws.
         reg_date raw \<noteq> [] \<and> (\<exists>y. getFullYear env (reg_date raw) = Some y \<and> 2020 \<le> y) \<and>
         industry_code raw \<noteq> []))"
proof
  assume run: "fetchCompaniesFromAPI env maxResults cache tr = (Inr cs, cache', tr')"
  from fetchCompanies_run [OF run]
  obtain evs where e: "tr' = tr @ evs"
    and ok: "list_all2 (\<lambda>raw c. (\<exists>cls t. fst (processCompany env cls raw t) = Inr c) \<and>
            co_businessId c = extract_businessId raw \<and> co_industryCode c = industry_code raw)
          (take maxResults (accumulated env (page_events evs))) cs"
    by blast
  let ?raws = "take maxResults
      (filter (validCompany env) (concat (map (\<lambda>(p, r). listed r) (page_events evs))))"
  have raws: "take maxResults (accumulated env (page_events evs)) = ?raws"
    by (simp add: accumulated_def)
  have "\<forall>raw \<in> set ?raws. validCompany env raw"
    by (auto dest: in_set_takeD)
  then have v: "\<forall>raw \<in> set ?raws.
         reg_date raw \<noteq> [] \<and> (\<exists>y. getFullYear env (reg_date raw) = Some y \<and> 2020 \<le> y) \<and>
         industry_code raw \<noteq> []"
    by (simp only: validCompany_iff)
  from e ok v show "\<exists>evs raws. tr' = tr @ evs \<and>
      raws = take maxResults
        (filter (validCompany env) (concat (map (\<lambda>(p, r). listed r) (page_events evs)))) \<and>
      list_all2 (\<lambda>raw c. (\<exists>cls t. fst (processCompany env cls raw t) = Inr c) \<and>
          co_businessId c = extract_businessId raw \<and> co_industryCode c = industry_code raw)
        raws cs \<and>
      (\<forall>raw \<in> set raws.
         reg_date raw \<noteq> [] \<and> (\<exists>y. getFullYear env (reg_date raw) = Some y \<and> 2020 \<le> y) \<and>
         industry_code raw \<noteq> [])"
    unfolding raws by blast
qed

theorem fetch_filters_witness:
  "\<exists>cs evs raws. fst (fetchCompaniesFromAPI no_embeddings 500 None []) = Inr cs \<and> length cs = 1 \<and>
      snd (snd (fetchCompaniesFromAPI no_embeddings 500 None [])) = [] @ evs \<and>
      raws = take 500
        (filter (validCompany no_embeddings)
          (concat (map (\<lambda>(p, r). listed r) (page_events evs)))) \<and>
      list_all2 (\<lambda>raw c. (\<exists>cls t. fst (processCompany no_embeddings cls raw t) = Inr c) \<and>
          co_businessId c = extract_businessId raw \<and> co_industryCode c = industry_code raw)
        raws cs \<and>
      (\<forall>raw \<in> set raws.
         reg_date raw \<noteq> [] \<and>
         (\<exists>y. getFullYear no_embeddings (reg_date raw) = Some y \<and> 2020 \<le> y) \<and>
         industry_code raw \<noteq> [])"
proof -
  let ?f = "fetchCompaniesFromAPI no_embeddings 500 None []"
  have "map_sum (\<lambda>e. ()) length (fst ?f) = Inr 1" by code_simp
  then obtain cs where cs: "fst ?f = Inr cs" and len: "length cs = 1"
    by (cases "fst ?f") auto
  then have "?f = (Inr cs, fst (snd ?f), snd (snd ?f))"
    by (metis prod.collapse)
  with fetch_filters [of no_embeddings 500 None "[]" cs "fst (snd ?f)" "snd (snd ?f)"]
  have "\<exists>evs raws. snd (snd ?f) = [] @ evs \<and>
      raws = take 500
        (filter (validCompany no_embeddings)
          (concat (map (\<lambda>(p, r). listed r) (page_events evs)))) \<and>
      list_all2 (\<lambda>raw c. (\<exists>cls t. fst (processCompany no_embeddings cls raw t) = Inr c) \<and>
          co_businessId c = extract_businessId raw \<and> co_industryCode c = industry_code raw)
        raws cs \<and>
      (\<forall>raw \<in> set raws.
         reg_date raw \<noteq> [] \<and>
         (\<exists>y. getFullYear no_embeddings (reg_date raw) = Some y \<and> 2020 \<le> y) \<and>
         industry_code raw \<noteq> [])"
    by (rule mp)
  with cs len show ?thesis by blast
qed

end
